theory Spec2Isabelle
  imports Main "HOL-Library.Word" "HOL-Library.Sublist" "HOL-Library.AList"
    "HOL-Library.Char_ord" "HOL-Library.List_Lexorder"
begin

unbundle bit_operations_syntax

section \<open>Python values, exceptions and library functions\<close>

text \<open>
  The harness is Python: its integers are unbounded (\<open>int\<close>), its strings are lists of
  characters, and every \<open>raise\<close>, failed \<open>assert\<close> and library exception is a value
  of \<open>py_error\<close> on the left of a sum. \<open>SystemExit\<close> is what argparse raises to leave
  the process; \<open>GdbError\<close> stands for the exceptions of the debugger bridge
  (\<open>gdb.error\<close>, \<open>gdb.MemoryError\<close>).
\<close>

datatype py_error =
    ValueError
  | AssertionError
  | RuntimeError
  | KeyError
  | OverflowError
  | AttributeError
  | NameError
  | UnboundLocalError
  | OSError
  | SystemExit
  | GdbError
  | TypeError

text \<open>
  \<open>random.randint(a, b)\<close>: raises ValueError on an empty range, and otherwise returns
  some integer of \<open>[a, b]\<close>. The third argument is the entropy the generator consumes
  for this draw; reducing it into the range makes every value of the range (and no
  other) a possible result.
\<close>

definition randint :: "int \<Rightarrow> int \<Rightarrow> int \<Rightarrow> py_error + int" where
  "randint a b r = (if b < a then Inl ValueError else Inr (a + r mod (b - a + 1)))"

subsection \<open>Strings\<close>

text \<open>
  A character is a code point below 256. \<open>str.strip\<close>, \<open>str.isspace\<close> and the
  regular-expression class \<open>\s\<close> share one notion of whitespace: tab, the line
  breaks, the separators 0x1c to 0x1f, the space, and of Latin-1 NEL and the
  no-break space.
\<close>

definition is_space :: "char \<Rightarrow> bool" where
  "is_space c = (let n = (of_char c :: nat) in
     (9 \<le> n \<and> n \<le> 13) \<or> (28 \<le> n \<and> n \<le> 32) \<or> n = 133 \<or> n = 160)"

definition lstrip :: "string \<Rightarrow> string" where
  "lstrip s = dropWhile is_space s"

definition rstrip :: "string \<Rightarrow> string" where
  "rstrip s = rev (dropWhile is_space (rev s))"

definition strip :: "string \<Rightarrow> string" where
  "strip s = rstrip (lstrip s)"

definition isspace :: "string \<Rightarrow> bool" where
  "isspace s = (s \<noteq> [] \<and> list_all is_space s)"

definition startswith :: "string \<Rightarrow> string \<Rightarrow> bool" where
  "startswith s u = prefix u s"

definition endswith :: "string \<Rightarrow> string \<Rightarrow> bool" where
  "endswith s u = suffix u s"

text \<open>\<open>s[:k]\<close>: a negative \<open>k\<close> counts from the end, and \<open>s[:-0]\<close> is \<open>s[:0]\<close>.\<close>

definition py_slice_to :: "string \<Rightarrow> int \<Rightarrow> string" where
  "py_slice_to s k = (if k < 0 then take (nat (int (length s) + k)) s else take (nat k) s)"

text \<open>\<open>s.split(sep)\<close> for a separator of one character: always at least one field.\<close>

fun split_acc :: "char \<Rightarrow> string \<Rightarrow> string \<Rightarrow> string list" where
  "split_acc sep [] cur = [rev cur]"
| "split_acc sep (c # cs) cur =
     (if c = sep then rev cur # split_acc sep cs [] else split_acc sep cs (c # cur))"

definition split :: "string \<Rightarrow> char \<Rightarrow> string list" where
  "split s sep = split_acc sep s []"

subsection \<open>\<open>int(s)\<close> and \<open>int(s, 16)\<close>\<close>

text \<open>
  The value of a digit in base \<open>b\<close>; letters count from ten, in either case.
\<close>

definition digit_of :: "int \<Rightarrow> char \<Rightarrow> int option" where
  "digit_of b c = (let n = (of_char c :: int) in
     if 48 \<le> n \<and> n \<le> 57 then (if n - 48 < b then Some (n - 48) else None)
     else if 97 \<le> n \<and> n \<le> 122 then (if n - 87 < b then Some (n - 87) else None)
     else if 65 \<le> n \<and> n \<le> 90 then (if n - 55 < b then Some (n - 55) else None)
     else None)"

text \<open>
  The digits of a literal: single underscores may stand between digits (and right
  after a base prefix), and the literal ends on a digit. \<open>us\<close> says an underscore may
  come next, \<open>ok\<close> that the literal may end here.
\<close>

fun digits_val :: "int \<Rightarrow> string \<Rightarrow> bool \<Rightarrow> bool \<Rightarrow> int \<Rightarrow> int option" where
  "digits_val b [] us ok acc = (if ok then Some acc else None)"
| "digits_val b (c # cs) us ok acc =
     (if c = CHR ''_'' then (if us then digits_val b cs False False acc else None)
      else case digit_of b c of
             None \<Rightarrow> None
           | Some d \<Rightarrow> digits_val b cs True True (acc * b + d))"

definition unsigned_val :: "int \<Rightarrow> string \<Rightarrow> int option" where
  "unsigned_val b s =
     (if b = 16 \<and> (prefix ''0x'' s \<or> prefix ''0X'' s) then digits_val b (drop 2 s) True False 0
      else digits_val b s False False 0)"

text \<open>
  \<open>int(s, b)\<close> for \<open>b\<close> ten or sixteen. The whitespace that \<open>int\<close> strips is not that
  of \<open>str.strip\<close>: the separators 0x1c to 0x1f are not part of it. One sign is
  allowed. In base ten a literal of more than 4300 digits is refused (the
  interpreter's default limit \<open>sys.get_int_max_str_digits()\<close>; signs, underscores and
  whitespace do not count, and base sixteen has no limit). Every failure is a
  ValueError, \<open>None\<close> here.
\<close>

definition is_int_space :: "char \<Rightarrow> bool" where
  "is_int_space c = (let n = (of_char c :: nat) in
     (9 \<le> n \<and> n \<le> 13) \<or> n = 32 \<or> n = 133 \<or> n = 160)"

definition int_strip :: "string \<Rightarrow> string" where
  "int_strip s = rev (dropWhile is_int_space (rev (dropWhile is_int_space s)))"

definition max_str_digits :: nat where
  "max_str_digits = 4300"

definition limited_val :: "int \<Rightarrow> string \<Rightarrow> int option" where
  "limited_val b s =
     (if b = 10 \<and> max_str_digits < length (filter (\<lambda>c. c \<noteq> CHR ''_'') s) then None
      else unsigned_val b s)"

definition py_int :: "int \<Rightarrow> string \<Rightarrow> int option" where
  "py_int b s =
     (case int_strip s of
        [] \<Rightarrow> None
      | c # cs \<Rightarrow>
          if c = CHR ''-'' then map_option uminus (limited_val b cs)
          else if c = CHR ''+'' then limited_val b cs
          else limited_val b (c # cs))"

section \<open>Memory ranges and flat views (qemu\_utils.py)\<close>

text \<open>
  \<open>class MemoryRange\<close>: the five fields of the constructor. The field names carry the
  prefix \<open>mr_\<close> because \<open>end\<close> is a keyword.
\<close>

record MemoryRange =
  mr_start :: int
  mr_end :: int
  mr_priority :: int
  mr_kind :: string
  mr_name :: string

subsection \<open>The pattern of a range line\<close>

definition is_hex :: "char \<Rightarrow> bool" where
  "is_hex c = (let n = (of_char c :: nat) in
     (48 \<le> n \<and> n \<le> 57) \<or> (97 \<le> n \<and> n \<le> 102) \<or> (65 \<le> n \<and> n \<le> 70))"

definition is_digit :: "char \<Rightarrow> bool" where
  "is_digit c = (let n = (of_char c :: nat) in 48 \<le> n \<and> n \<le> 57)"

text \<open>
  \<open>re.match\<close> of
  \<^verbatim>\<open>^\s*([0-9a-fA-F]+)-([0-9a-fA-F]+)\s+\(prio\s+(\d+),\s+([^)]+)\):\s+(\S+)\<close>
  returning the five groups. Each greedy repetition but one is followed by a
  character outside its own class, so it takes the longest run and backtracking finds
  nothing else. The exception is \<open>\s+([^)]+)\<close>: whitespace is also in \<open>[^)]\<close>. When
  some character other than \<open>)\<close> follows the whitespace, group 4 is the run up to the
  first \<open>)\<close>; when \<open>)\<close> follows it at once, the whitespace gives back its last
  character, which becomes group 4, provided one whitespace character is left for
  \<open>\s+\<close>. The match is anchored at the start only: text after group 5 is ignored.
\<close>

definition match_range_line :: "string \<Rightarrow> (string \<times> string \<times> string \<times> string \<times> string) option" where
  "match_range_line l =
     (let l0 = dropWhile is_space l;
          g1 = takeWhile is_hex l0; l1 = dropWhile is_hex l0 in
      if g1 = [] \<or> \<not> prefix ''-'' l1 then None else
      let l2 = drop 1 l1;
          g2 = takeWhile is_hex l2; l3 = dropWhile is_hex l2 in
      if g2 = [] then None else
      let w1 = takeWhile is_space l3; l4 = dropWhile is_space l3 in
      if w1 = [] \<or> \<not> prefix ''(prio'' l4 then None else
      let l5 = drop 5 l4;
          w2 = takeWhile is_space l5; l6 = dropWhile is_space l5;
          g3 = takeWhile is_digit l6; l7 = dropWhile is_digit l6 in
      if w2 = [] \<or> g3 = [] \<or> \<not> prefix '','' l7 then None else
      let l8 = drop 1 l7;
          w3 = takeWhile is_space l8; l9 = dropWhile is_space l8;
          r = takeWhile (\<lambda>c. c \<noteq> CHR '')'') l9; l10 = dropWhile (\<lambda>c. c \<noteq> CHR '')'') l9;
          g4 = (if r \<noteq> [] then r else if 2 \<le> length w3 then [last w3] else []) in
      if w3 = [] \<or> g4 = [] \<or> \<not> prefix ''):'' l10 then None else
      let l11 = drop 2 l10;
          w4 = takeWhile is_space l11; l12 = dropWhile is_space l11;
          g5 = takeWhile (\<lambda>c. \<not> is_space c) l12 in
      if w4 = [] \<or> g5 = [] then None else Some (g1, g2, g3, g4, g5))"

text \<open>
  \<open>MemoryRange.parse\<close>: the pattern is matched against the stripped line; a line that
  does not match, or a group that does not convert, raises ValueError.
\<close>

definition MemoryRange_parse :: "string \<Rightarrow> py_error + MemoryRange" where
  "MemoryRange_parse line =
     (case match_range_line (strip line) of
        None \<Rightarrow> Inl ValueError
      | Some (g1, g2, g3, g4, g5) \<Rightarrow>
          (case (py_int 16 g1, py_int 16 g2, py_int 10 g3) of
             (Some s, Some e, Some p) \<Rightarrow>
               Inr \<lparr>mr_start = s, mr_end = e, mr_priority = p, mr_kind = strip g4, mr_name = g5\<rparr>
           | _ \<Rightarrow> Inl ValueError))"

subsection \<open>Flat views\<close>

text \<open>
  Everything the harness prints, as data. The target of a flip is an address or a
  register name; the source renders addresses and values with \<open>hex\<close>.
\<close>

datatype target = Address int | Register string

datatype message =
    SkippingInvalidRangeLine string
  | UnexpectedLineInMtree string
  | UnexpectedLineInRanges string
  | InvalidLineInRangeFile string
  | InjectedBitflip target int int
  | RegisterReadException
  | RegisterFlipIgnored string int int
  | RegisterFlipException py_error
  | NoRegistersFound
  | TryingAnotherRegister
  | OutOfRegisters
  | ParserOutput string
  | ErrorParsingArguments
  | ErrorParsingAddress
  | InvalidBytewidthOrAddress
  | ErrorMessage py_error
  | BothOrNeither
  | CreateTmpCheckpoint string
  | LoadCheckpoint string
  | ErrorParsingRamAddress
  | TotalInjectionDuration
  | ObservingVM string
  | TimeUp
  | BackToCheckpoint string
  | DeleteTmpCheckpoint
  | InvalidCount
  | NoValidAddresses
  | RequestedTooMany int nat
  | PerformingInjections int nat
  | InjectionFailedAt int py_error

record FlatView =
  ranges :: "MemoryRange list"

text \<open>
  \<open>FlatView.parse\<close>: the lines that parse, in order; each other line is skipped with a
  printed warning. The result carries the warnings printed.
\<close>

fun FlatView_parse_loop :: "string list \<Rightarrow> MemoryRange list \<Rightarrow> message list
    \<Rightarrow> MemoryRange list \<times> message list" where
  "FlatView_parse_loop [] acc out = (acc, out)"
| "FlatView_parse_loop (line # rest) acc out =
     (case MemoryRange_parse line of
        Inr r \<Rightarrow> FlatView_parse_loop rest (acc @ [r]) out
      | Inl e \<Rightarrow> FlatView_parse_loop rest acc (out @ [SkippingInvalidRangeLine line]))"

definition FlatView_parse :: "string list \<Rightarrow> FlatView \<times> message list" where
  "FlatView_parse lines =
     (case FlatView_parse_loop lines [] [] of (rs, out) \<Rightarrow> (\<lparr>ranges = rs\<rparr>, out))"

text \<open>\<open>FlatView.ram_ranges\<close>: the (start, end) pairs of the ranges of kind "ram".\<close>

definition ram_ranges :: "FlatView \<Rightarrow> (int \<times> int) list" where
  "ram_ranges fv = map (\<lambda>r. (mr_start r, mr_end r)) (filter (\<lambda>r. mr_kind r = ''ram'') (ranges fv))"

text \<open>
  The loop of \<open>FlatView.random_address\<close>:
  \<^verbatim>\<open>
  for start, end in ranges:
      offset += start
      if offset < end:
          return offset
      offset -= end
  assert False, "should have been in range!"
  \<close>
\<close>

fun walk_ranges :: "(int \<times> int) list \<Rightarrow> int \<Rightarrow> py_error + int" where
  "walk_ranges [] offset = Inl AssertionError"
| "walk_ranges ((s, e) # rs) offset =
     (let offset1 = offset + s in
      if offset1 < e then Inr offset1 else walk_ranges rs (offset1 - e))"

definition range_lens :: "(int \<times> int) list \<Rightarrow> int list" where
  "range_lens rs = map (\<lambda>(s, e). e - s) rs"

text \<open>
  \<open>FlatView.random_address\<close>; \<open>r\<close> is the entropy of the one draw
  \<open>random.randint(0, sum(lens) - 1)\<close>.
\<close>

definition random_address :: "FlatView \<Rightarrow> int \<Rightarrow> py_error + int" where
  "random_address fv r =
     (let rs = ram_ranges fv; lens = range_lens rs in
      case randint 0 (sum_list lens - 1) r of
        Inl err \<Rightarrow> Inl err
      | Inr offset \<Rightarrow> walk_ranges rs offset)"

text \<open>
  The reference algorithm in the words of the specification:
  \<open>for (s,e) in ranges: if offset < e-s: return s + offset; offset -= e-s\<close>. The
  specification does not say what happens when the loop runs out of ranges, so the
  reference returns \<open>None\<close> there.
\<close>

fun spec_walk :: "(int \<times> int) list \<Rightarrow> int \<Rightarrow> int option" where
  "spec_walk [] offset = None"
| "spec_walk ((s, e) # rs) offset =
     (if offset < e - s then Some (s + offset) else spec_walk rs (offset - (e - s)))"

section \<open>The memory tree (qemu\_utils.py)\<close>

text \<open>
  The parser walks the list of lines with an index \<open>i\<close>. Here each loop takes the
  lines from index \<open>i\<close> on and returns the lines left, which is the same information
  as the index returned by the source. A dictionary is an association list in
  insertion order: \<open>AList.update\<close> replaces the value of a key that is present, in
  place, and appends a new key, as a Python \<open>dict\<close> does. The functions return the
  warnings they print next to their result; what was printed before an exception is
  not recorded.
\<close>

type_synonym views = "(string \<times> string list) list"

definition dquote :: char where
  "dquote = CHR 0x22"

text \<open>
  \<open>_extract_address_space_name\<close>: exactly two double quotes, or ValueError; the name
  is the text between them.
\<close>

definition extract_address_space_name :: "string \<Rightarrow> py_error + string" where
  "extract_address_space_name line =
     (if count_list line dquote \<noteq> 2 then Inl ValueError else Inr (split line dquote ! 1))"

text \<open>
  \<open>_is_memory_range_line\<close>: the pattern of \<open>MemoryRange.parse\<close> without its groups.
\<close>

definition is_memory_range_line :: "string \<Rightarrow> bool" where
  "is_memory_range_line line = (match_range_line line \<noteq> None)"

text \<open>
  The first loop of \<open>_parse_flatview_section\<close>, over the header of a section. The
  boolean of the result says that the function returned from inside the loop (the
  next section started); otherwise the loop ended at a \<open>Root\<close> line or at the end of
  the input.
\<close>

fun header_loop :: "string list \<Rightarrow> string list \<Rightarrow> views
    \<Rightarrow> py_error + (bool \<times> string list \<times> string list \<times> views)" where
  "header_loop [] address_spaces vs = Inr (False, [], address_spaces, vs)"
| "header_loop (l # ls) address_spaces vs =
     (let line = rstrip l in
      if startswith line ('' AS '' @ [dquote]) then
        (case extract_address_space_name line of
           Inl e \<Rightarrow> Inl e
         | Inr as_name \<Rightarrow>
             header_loop ls (address_spaces @ [as_name]) (AList.update as_name [] vs))
      else if startswith line '' Root '' then Inr (False, ls, address_spaces, vs)
      else if startswith line ''FlatView #'' then Inr (True, l # ls, address_spaces, vs)
      else header_loop ls address_spaces vs)"

text \<open>\<open>for as_name in address_spaces: del views[as_name]\<close>; a missing key raises.\<close>

fun del_all :: "string list \<Rightarrow> views \<Rightarrow> py_error + views" where
  "del_all [] vs = Inr vs"
| "del_all (a # as) vs =
     (case map_of vs a of
        None \<Rightarrow> Inl KeyError
      | Some body \<Rightarrow> del_all as (AList.delete a vs))"

text \<open>\<open>for as_name in address_spaces: views[as_name].append(line)\<close>.\<close>

fun append_all :: "string list \<Rightarrow> string \<Rightarrow> views \<Rightarrow> py_error + views" where
  "append_all [] line vs = Inr vs"
| "append_all (a # as) line vs =
     (case map_of vs a of
        None \<Rightarrow> Inl KeyError
      | Some body \<Rightarrow> append_all as line (AList.update a (body @ [line]) vs))"

text \<open>The loop over the range lines of a section.\<close>

fun ranges_loop :: "string list \<Rightarrow> string list \<Rightarrow> views \<Rightarrow> message list
    \<Rightarrow> py_error + ((string list \<times> views) \<times> message list)" where
  "ranges_loop [] address_spaces vs out = Inr (([], vs), out)"
| "ranges_loop (l # ls) address_spaces vs out =
     (let line = rstrip l in
      if startswith line ''  '' \<and> is_memory_range_line line then
        (case append_all address_spaces line vs of
           Inl e \<Rightarrow> Inl e
         | Inr vs1 \<Rightarrow> ranges_loop ls address_spaces vs1 out)
      else if startswith line ''FlatView #'' \<or> line = [] then Inr ((l # ls, vs), out)
      else ranges_loop ls address_spaces vs
             (if line \<noteq> [] \<and> \<not> isspace line then out @ [UnexpectedLineInRanges line] else out))"

text \<open>
  \<open>_parse_flatview_section(lines, start_index)\<close>; the argument is the list of lines
  from \<open>start_index + 1\<close> on.
\<close>

definition parse_flatview_section :: "string list
    \<Rightarrow> py_error + ((string list \<times> views) \<times> message list)" where
  "parse_flatview_section ls =
     (case header_loop ls [] [] of
        Inl e \<Rightarrow> Inl e
      | Inr (returned, rest, address_spaces, vs) \<Rightarrow>
          if returned then Inr ((rest, vs), [])
          else
            (case rest of
               [] \<Rightarrow> Inr (([], vs), [])
             | l # ls1 \<Rightarrow>
                 if startswith (rstrip l) ''  No rendered FlatView'' then
                   (case del_all address_spaces vs of
                      Inl e \<Rightarrow> Inl e
                    | Inr vs1 \<Rightarrow> Inr ((ls1, vs1), []))
                 else ranges_loop (l # ls1) address_spaces vs []))"

text \<open>\<open>views.update(flatview_views)\<close>.\<close>

definition dict_update :: "views \<Rightarrow> views \<Rightarrow> views" where
  "dict_update vs new = foldl (\<lambda>acc (k, body). AList.update k body acc) vs new"

lemma header_loop_length:
  "header_loop ls address_spaces vs = Inr (returned, rest, a, v) \<Longrightarrow> length rest \<le> length ls"
proof (induction ls arbitrary: address_spaces vs)
  case Nil
  then show ?case by simp
next
  case (Cons l ls)
  then show ?case
    by (fastforce simp: Let_def split: if_splits sum.splits)
qed

lemma ranges_loop_length:
  "ranges_loop ls address_spaces vs out = Inr ((rest, v), out1) \<Longrightarrow> length rest \<le> length ls"
proof (induction ls arbitrary: vs out)
  case Nil
  then show ?case by simp
next
  case (Cons l ls)
  then show ?case
    by (fastforce simp: Let_def split: if_splits sum.splits)
qed

lemma parse_flatview_section_length:
  assumes "parse_flatview_section ls = Inr ((rest, v), out)"
  shows "length rest \<le> length ls"
proof (cases "header_loop ls [] []")
  case (Inl e)
  with assms show ?thesis by (simp add: parse_flatview_section_def)
next
  case (Inr t)
  obtain returned rest1 a v1 where t: "t = (returned, rest1, a, v1)" by (cases t)
  have h: "length rest1 \<le> length ls"
    using Inr t header_loop_length by blast
  show ?thesis
  proof (cases returned)
    case True
    with assms Inr t h show ?thesis by (simp add: parse_flatview_section_def)
  next
    case False
    show ?thesis
    proof (cases rest1)
      case Nil
      with assms Inr t False show ?thesis by (simp add: parse_flatview_section_def)
    next
      case (Cons l ls1)
      show ?thesis
      proof (cases "startswith (rstrip l) ''  No rendered FlatView''")
        case True
        with assms Inr t False Cons h show ?thesis
          by (auto simp: parse_flatview_section_def split: sum.splits)
      next
        case nr: False
        with assms Inr t False Cons
        have "ranges_loop (l # ls1) a v1 [] = Inr ((rest, v), out)"
          by (simp add: parse_flatview_section_def)
        then have "length rest \<le> length (l # ls1)" by (rule ranges_loop_length)
        with h Cons show ?thesis by simp
      qed
    qed
  qed
qed

text \<open>
  The loop of \<open>_parse_mtree_output\<close>. A section is entered at a line that starts with
  \<open>FlatView #\<close> and parsing resumes at the line where the section stopped.
\<close>

function parse_mtree_loop :: "string list \<Rightarrow> views \<Rightarrow> message list
    \<Rightarrow> py_error + (views \<times> message list)" where
  "parse_mtree_loop [] vs out = Inr (vs, out)"
| "parse_mtree_loop (l # ls) vs out =
     (if startswith (rstrip l) ''FlatView #'' then
        (case parse_flatview_section ls of
           Inl e \<Rightarrow> Inl e
         | Inr ((rest, flatview_views), out1) \<Rightarrow>
             parse_mtree_loop rest (dict_update vs flatview_views) (out @ out1))
      else parse_mtree_loop ls vs
             (if rstrip l \<noteq> [] \<and> \<not> isspace (rstrip l)
              then out @ [UnexpectedLineInMtree (rstrip l)] else out))"
  by pat_completeness auto
termination
  by (relation "measure (\<lambda>(ls, vs, out). length ls)")
     (auto dest: parse_flatview_section_length)

text \<open>
  The dictionary comprehension \<open>{name: FlatView.parse(body) ...}\<close> that ends
  \<open>_parse_mtree_output\<close>.
\<close>

fun parse_bodies :: "views \<Rightarrow> (string \<times> FlatView) list \<times> message list" where
  "parse_bodies [] = ([], [])"
| "parse_bodies ((name, body) # rest) =
     (case FlatView_parse body of (fv, out1) \<Rightarrow>
        (case parse_bodies rest of (fvs, out2) \<Rightarrow> ((name, fv) # fvs, out1 @ out2)))"

definition parse_mtree_output :: "string \<Rightarrow> py_error + ((string \<times> FlatView) list \<times> message list)" where
  "parse_mtree_output output =
     (case parse_mtree_loop (split output CHR 0x0A) [] [] of
        Inl e \<Rightarrow> Inl e
      | Inr (vs, out) \<Rightarrow>
          (case parse_bodies vs of (fvs, out1) \<Rightarrow> Inr (fvs, out @ out1)))"

text \<open>
  \<open>mtree()\<close>, as a function of what the monitor answers to \<open>info mtree -f\<close>:
  \<open>qemu_hmp\<close> strips the answer, and every exception of the parser is raised again as
  RuntimeError.
\<close>

definition mtree :: "string \<Rightarrow> py_error + ((string \<times> FlatView) list \<times> message list)" where
  "mtree reply =
     (case parse_mtree_output (strip reply) of
        Inl e \<Rightarrow> Inl RuntimeError
      | Inr r \<Rightarrow> Inr r)"

text \<open>
  \<open>sample_address()\<close>: \<open>mtree()["memory"].random_address()\<close>; \<open>r\<close> is the entropy of the
  draw.
\<close>

definition sample_address :: "string \<Rightarrow> int \<Rightarrow> py_error + int" where
  "sample_address reply r =
     (case mtree reply of
        Inl e \<Rightarrow> Inl e
      | Inr (fvs, out) \<Rightarrow>
          (case map_of fvs ''memory'' of
             None \<Rightarrow> Inl KeyError
           | Some fv \<Rightarrow> random_address fv r))"

section \<open>Durations (qemu\_utils.py, \<open>parse_time\<close>)\<close>

text \<open>The dictionary \<open>time_units\<close>, in the order of the source.\<close>

definition time_units :: "(string \<times> int) list" where
  "time_units =
     [('''', 1),
      (''ns'', 1),
      (''us'', 1000),
      (''ms'', 1000 * 1000),
      (''s'', 1000 * 1000 * 1000),
      (''m'', 60 * 1000 * 1000 * 1000)]"

text \<open>
  \<^verbatim>\<open>
  for unit, mul in sorted(time_units.items()):
      if s.endswith(unit):
          try:
              res = int(s[:-len(unit)])
          except ValueError:
              continue  # try the next unit
          if res <= 0:
              raise ValueError(...)
          return res * mul
  raise ValueError("could not parse units in %r" % s)
  \<close>
  \<open>sorted\<close> orders the items by their keys, which are distinct.
\<close>

fun parse_time_loop :: "(string \<times> int) list \<Rightarrow> string \<Rightarrow> py_error + int" where
  "parse_time_loop [] s = Inl ValueError"
| "parse_time_loop ((unit, mul) # rest) s =
     (if endswith s unit then
        (case py_int 10 (py_slice_to s (- int (length unit))) of
           None \<Rightarrow> parse_time_loop rest s
         | Some res \<Rightarrow> if res \<le> 0 then Inl ValueError else Inr (res * mul))
      else parse_time_loop rest s)"

definition parse_time :: "string \<Rightarrow> py_error + int" where
  "parse_time s = parse_time_loop (sort_key fst time_units) s"

section \<open>The debugger bridge and the state of a session\<close>

text \<open>
  The commands act on the guest through gdb and the QEMU monitor. The state of a
  session holds what they can observe and change: guest memory (an access to an
  address that is not mapped raises \<open>gdb.MemoryError\<close>; a write to a mapped address
  that does not accept writes is dropped, as for ROM), the registers of the selected
  frame, the monitor's reply to \<open>info mtree -f\<close>, the values of gdb expressions, the
  files of the host, the logger of the harness and whether its CSV file can be
  appended to, the register cache, the entropy of Python's random generator, the
  fresh tag \<open>uuid.uuid4()\<close> returns, and the trace of everything printed, logged or
  sent to the monitor. Monitor commands do not raise.
\<close>

text \<open>
  A register as gdb shows it: the string of its type, the size of the type, its
  value (a scalar has one cell, a 128-bit vector the two 64-bit cells of
  \<open>(int64_t[2])$reg\<close>), and how the target reacts to a write: writing \<open>v\<close> over a cell
  that holds \<open>old\<close> leaves \<open>c\<close> there when \<open>reg_reaction old v = Some c\<close>, and is refused
  with \<open>gdb.error\<close> when it is \<open>None\<close>.
\<close>

record register =
  reg_type :: string
  reg_sizeof :: int
  reg_cells :: "nat \<Rightarrow> int"
  reg_reaction :: "int \<Rightarrow> int \<Rightarrow> int option"

datatype hmp_command =
    InfoMtree
  | Cont
  | StopDelayed int
  | Savevm string
  | Loadvm string
  | Delvm string

datatype event =
    Printed message
  | Monitor hmp_command
  | CsvRow string target int int

record world =
  memory :: "int \<Rightarrow> 8 word"
  mapped :: "int \<Rightarrow> bool"
  writable :: "int \<Rightarrow> bool"
  registers :: "(string \<times> register) list"
  mtree_reply :: string
  gdb_eval :: "string \<Rightarrow> int option"
  files :: "string \<Rightarrow> string option"
  logger :: "string option"
  csv_ok :: bool
  cached_reg_list :: "(string \<times> int) list option"
  entropy :: "nat \<Rightarrow> int"
  draws :: nat
  uuid :: string
  trace :: "event list"

text \<open>
  A piece of the program is a function from the state to a result (an exception or a
  value) and the new state.
\<close>

type_synonym 'a prog = "world \<Rightarrow> (py_error + 'a) \<times> world"

definition unit_p :: "'a \<Rightarrow> 'a prog" where
  "unit_p x = (\<lambda>w. (Inr x, w))"

definition raise_p :: "py_error \<Rightarrow> 'a prog" where
  "raise_p e = (\<lambda>w. (Inl e, w))"

definition bind_p :: "'a prog \<Rightarrow> ('a \<Rightarrow> 'b prog) \<Rightarrow> 'b prog" where
  "bind_p m f = (\<lambda>w. case m w of (Inl e, w1) \<Rightarrow> (Inl e, w1) | (Inr x, w1) \<Rightarrow> f x w1)"

definition seq_p :: "unit prog \<Rightarrow> 'b prog \<Rightarrow> 'b prog" where
  "seq_p m n = bind_p m (\<lambda>u. n)"

text \<open>\<open>try: m except (the exceptions of handles): h\<close>.\<close>

definition try_p :: "'a prog \<Rightarrow> (py_error \<Rightarrow> bool) \<Rightarrow> (py_error \<Rightarrow> 'a prog) \<Rightarrow> 'a prog" where
  "try_p m handles h =
     (\<lambda>w. case m w of
        (Inl e, w1) \<Rightarrow> if handles e then h e w1 else (Inl e, w1)
      | (Inr x, w1) \<Rightarrow> (Inr x, w1))"

text \<open>
  \<open>try: m finally: f\<close>, for an \<open>f\<close> that does not raise: \<open>f\<close> runs in either case and
  the outcome of \<open>m\<close> stands.
\<close>

definition finally_p :: "'a prog \<Rightarrow> unit prog \<Rightarrow> 'a prog" where
  "finally_p m f = (\<lambda>w. case m w of (r, w1) \<Rightarrow> (r, snd (f w1)))"

text \<open>
  \<open>except Exception\<close> catches every exception of the model but SystemExit, which
  derives from BaseException.
\<close>

definition is_Exception :: "py_error \<Rightarrow> bool" where
  "is_Exception e = (e \<noteq> SystemExit)"

definition of_result :: "py_error + 'a \<Rightarrow> 'a prog" where
  "of_result r = (\<lambda>w. (r, w))"

definition emit :: "event \<Rightarrow> unit prog" where
  "emit ev = (\<lambda>w. (Inr (), w\<lparr>trace := trace w @ [ev]\<rparr>))"

definition print_p :: "message \<Rightarrow> unit prog" where
  "print_p m = emit (Printed m)"

fun print_all :: "message list \<Rightarrow> unit prog" where
  "print_all [] = unit_p ()"
| "print_all (m # ms) = seq_p (print_p m) (print_all ms)"

text \<open>\<open>random.randint(a, b)\<close> on the state: one draw of entropy is consumed.\<close>

definition randint_p :: "int \<Rightarrow> int \<Rightarrow> int prog" where
  "randint_p a b =
     (\<lambda>w. case randint a b (entropy w (draws w)) of
        Inl e \<Rightarrow> (Inl e, w)
      | Inr v \<Rightarrow> (Inr v, w\<lparr>draws := Suc (draws w)\<rparr>))"

text \<open>\<open>qemu_hmp(cmdstr)\<close>: the command goes to the monitor.\<close>

definition qemu_hmp :: "hmp_command \<Rightarrow> unit prog" where
  "qemu_hmp c = emit (Monitor c)"

subsection \<open>Guest memory\<close>

definition read_memory :: "int \<Rightarrow> nat \<Rightarrow> (8 word list) prog" where
  "read_memory address n =
     (\<lambda>w. if \<forall>i \<in> set [0..<n]. mapped w (address + int i)
          then (Inr (map (\<lambda>i. memory w (address + int i)) [0..<n]), w)
          else (Inl GdbError, w))"

definition write_memory :: "int \<Rightarrow> 8 word list \<Rightarrow> unit prog" where
  "write_memory address bs =
     (\<lambda>w. if \<forall>i \<in> set [0..<length bs]. mapped w (address + int i)
          then (Inr (), w\<lparr>memory := (\<lambda>x.
                  if writable w x \<and> address \<le> x \<and> x < address + int (length bs)
                  then bs ! nat (x - address) else memory w x)\<rparr>)
          else (Inl GdbError, w))"

text \<open>\<open>int.from_bytes(bs, "little")\<close> and \<open>int.to_bytes(n, length, "little")\<close>.\<close>

fun from_bytes :: "8 word list \<Rightarrow> int" where
  "from_bytes [] = 0"
| "from_bytes (b # bs) = uint b + 256 * from_bytes bs"

fun bytes_of :: "int \<Rightarrow> nat \<Rightarrow> 8 word list" where
  "bytes_of n 0 = []"
| "bytes_of n (Suc k) = word_of_int n # bytes_of (n div 256) k"

definition to_bytes :: "int \<Rightarrow> nat \<Rightarrow> py_error + 8 word list" where
  "to_bytes n k = (if n < 0 \<or> 256 ^ k \<le> n then Inl OverflowError else Inr (bytes_of n k))"

text \<open>\<open>1 << bit\<close>: a negative shift count raises ValueError.\<close>

definition shift_one :: "int \<Rightarrow> py_error + int" where
  "shift_one bitno = (if bitno < 0 then Inl ValueError else Inr (push_bit (nat bitno) 1))"

subsection \<open>The logger (logger.py)\<close>

text \<open>
  \<open>log_single\<close>: a row appended to the CSV file when the logger is initialised
  (\<open>open\<close> raises OSError when the file cannot be appended to), a printed line
  otherwise.
\<close>

definition log_single :: "target \<Rightarrow> int \<Rightarrow> int \<Rightarrow> unit prog" where
  "log_single t old_value new_value =
     (\<lambda>w. case logger w of
        Some filename \<Rightarrow>
          if csv_ok w then emit (CsvRow filename t old_value new_value) w
          else raise_p OSError w
      | None \<Rightarrow> print_p (InjectedBitflip t old_value new_value) w)"

section \<open>Injection primitives (qemu\_utils.py)\<close>

text \<open>
  \<^verbatim>\<open>
  def inject_bitflip(address, bytewidth, bit=None):
      assert bytewidth >= 1, "invalid bytewidth: %u" % bytewidth
      if bit is None:
          bit = random.randint(0, bytewidth * 8 - 1)
      inferior = gdb.selected_inferior()
      ovalue = int.from_bytes(inferior.read_memory(address, bytewidth), "little")
      nvalue = ovalue ^ (1 << bit)
      inferior.write_memory(address, int.to_bytes(nvalue, bytewidth, "little"))
      rnvalue = int.from_bytes(inferior.read_memory(address, bytewidth), "little")
      assert nvalue == rnvalue and nvalue != ovalue, ...
      log_single(hex(address), hex(ovalue), hex(nvalue))
  \<close>
\<close>

definition inject_bitflip :: "int \<Rightarrow> int \<Rightarrow> int option \<Rightarrow> unit prog" where
  "inject_bitflip address bytewidth bit_opt =
     (if \<not> bytewidth \<ge> 1 then raise_p AssertionError else
      bind_p (case bit_opt of None \<Rightarrow> randint_p 0 (bytewidth * 8 - 1) | Some b \<Rightarrow> unit_p b)
        (\<lambda>bitno.
      bind_p (read_memory address (nat bytewidth)) (\<lambda>obytes.
      bind_p (of_result (shift_one bitno)) (\<lambda>mask.
      let ovalue = from_bytes obytes; nvalue = ovalue XOR mask in
      bind_p (of_result (to_bytes nvalue (nat bytewidth))) (\<lambda>nbytes.
      seq_p (write_memory address nbytes) (
      bind_p (read_memory address (nat bytewidth)) (\<lambda>rbytes.
      let rnvalue = from_bytes rbytes in
      if \<not> (nvalue = rnvalue \<and> nvalue \<noteq> ovalue) then raise_p AssertionError
      else log_single (Address address) ovalue nvalue)))))))"


subsection \<open>Registers\<close>

text \<open>
  \<open>gdb.selected_frame().read_register(name)\<close>: a name that is no string raises
  TypeError, a name that is no register ValueError.
\<close>

definition read_register :: "string option \<Rightarrow> register prog" where
  "read_register name =
     (\<lambda>w. case name of
        None \<Rightarrow> (Inl TypeError, w)
      | Some n \<Rightarrow>
          (case map_of (registers w) n of
             None \<Rightarrow> (Inl ValueError, w)
           | Some r \<Rightarrow> (Inr r, w)))"

text \<open>
  \<open>int(gdb.execute("p ((int64_t[2])$name)[index]", to_string=True).split("=")[1].strip())\<close>:
  gdb prints the cell as \<open>$n = value\<close>, which converts back; an unknown register
  makes gdb raise.
\<close>

definition print_cell :: "string \<Rightarrow> nat \<Rightarrow> int prog" where
  "print_cell name index =
     (\<lambda>w. case map_of (registers w) name of
        None \<Rightarrow> (Inl GdbError, w)
      | Some r \<Rightarrow> (Inr (reg_cells r index), w))"

text \<open>
  \<open>gdb.execute("set $name = v")\<close> and \<open>gdb.execute("set ((int64_t[2])$name)[index] = v")\<close>:
  the target reacts to the write of the cell.
\<close>

definition set_cell :: "string \<Rightarrow> nat \<Rightarrow> int \<Rightarrow> unit prog" where
  "set_cell name index v =
     (\<lambda>w. case map_of (registers w) name of
        None \<Rightarrow> (Inl GdbError, w)
      | Some r \<Rightarrow>
          (case reg_reaction r (reg_cells r index) v of
             None \<Rightarrow> (Inl GdbError, w)
           | Some c \<Rightarrow>
               (Inr (), w\<lparr>registers :=
                  AList.update name (r\<lparr>reg_cells := (reg_cells r)(index := c)\<rparr>) (registers w)\<rparr>)))"

text \<open>\<open>str(register_name)\<close>, as the format strings render the argument.\<close>

definition str_of :: "string option \<Rightarrow> string" where
  "str_of name = (case name of None \<Rightarrow> ''None'' | Some n \<Rightarrow> n)"

text \<open>
  \<open>inject_register_bitflip(register_name, bit=None)\<close>. The function returns \<open>True\<close>,
  \<open>False\<close> or, where the source falls off its end, \<open>None\<close>. When the first
  \<open>try\<close> catches an exception, \<open>value\<close> stays unbound and the next statement raises
  UnboundLocalError.
  \<^verbatim>\<open>
      try:
          value = gdb.selected_frame().read_register(register_name)
      except Exception as e:
          print("[inject_register_bitflip] get exception when reading register value: ", e)
      bitcount = min(8 * value.type.sizeof, 64)
      bitmask = (1 << bitcount) - 1
      if bit is None:
          bit = random.randint(0, bitcount - 1)
      try:
          if str(value.type) == "union aarch64v":
              index = random.randint(0, 1)
              oldval = int(gdb.execute("p ((int64_t[2])$%s)[%d]" % ...) ...)
              newval = oldval ^ (1 << bit)
              gdb.execute("set ((int64_t[2])$%s)[%d] = %d" % (register_name, index, newval))
              rrval = int(gdb.execute("p ((int64_t[2])$%s)[%d]" % ...) ...)
          else:
              assert value.type.sizeof == 8, ...
              oldval = int(value)
              newval = oldval ^ (1 << bit)
              gdb.execute("set $%s = %d" % (register_name, newval))
              rrval = int(gdb.selected_frame().read_register(register_name))
          if (newval & bitmask) == (rrval & bitmask):
              log_single(register_name, hex(oldval), hex(rrval))
              return True
          elif (oldval & bitmask) == (rrval & bitmask):
              print("Bitflip could not be injected into register ...")
              return False
          else:
              raise RuntimeError("double-mismatched register values ...")
      except Exception as e:
          print("[inject_register_bitflip] exception: ", e)
  \<close>
\<close>

definition flip_cells :: "string option \<Rightarrow> register \<Rightarrow> int \<Rightarrow> (int \<times> int \<times> int) prog" where
  "flip_cells register_name val bitno =
     (if reg_type val = ''union aarch64v'' then
        bind_p (randint_p 0 1) (\<lambda>index.
        bind_p (print_cell (str_of register_name) (nat index)) (\<lambda>oldval.
        bind_p (of_result (shift_one bitno)) (\<lambda>mask.
        let newval = oldval XOR mask in
        seq_p (set_cell (str_of register_name) (nat index) newval) (
        bind_p (print_cell (str_of register_name) (nat index)) (\<lambda>rrval.
        unit_p (oldval, newval, rrval))))))
      else if reg_sizeof val \<noteq> 8 then raise_p AssertionError
      else
        let oldval = reg_cells val 0 in
        bind_p (of_result (shift_one bitno)) (\<lambda>mask.
        let newval = oldval XOR mask in
        seq_p (set_cell (str_of register_name) 0 newval) (
        bind_p (read_register register_name) (\<lambda>rr.
        unit_p (oldval, newval, reg_cells rr 0)))))"

definition inject_register_bitflip :: "string option \<Rightarrow> int option \<Rightarrow> (bool option) prog" where
  "inject_register_bitflip register_name bit_opt =
     bind_p (try_p (bind_p (read_register register_name) (\<lambda>v. unit_p (Some v))) is_Exception
               (\<lambda>e. seq_p (print_p RegisterReadException) (unit_p None)))
       (\<lambda>value.
     case value of
       None \<Rightarrow> raise_p UnboundLocalError
     | Some val \<Rightarrow>
         let bitcount = min (8 * reg_sizeof val) 64 in
         bind_p (of_result (shift_one bitcount)) (\<lambda>sh.
         let bitmask = sh - 1 in
         bind_p (case bit_opt of None \<Rightarrow> randint_p 0 (bitcount - 1) | Some b \<Rightarrow> unit_p b)
           (\<lambda>bitno.
         try_p
           (bind_p (flip_cells register_name val bitno) (\<lambda>(oldval, newval, rrval).
              if newval AND bitmask = rrval AND bitmask then
                seq_p (log_single (Register (str_of register_name)) oldval rrval)
                  (unit_p (Some True))
              else if oldval AND bitmask = rrval AND bitmask then
                seq_p (print_p (RegisterFlipIgnored (str_of register_name) oldval newval))
                  (unit_p (Some False))
              else raise_p RuntimeError))
           is_Exception
           (\<lambda>e. seq_p (print_p (RegisterFlipException e)) (unit_p None)))))"

text \<open>
  \<open>Registers().list_registers()\<close>: the registers of the architecture whose type is
  one of four, with the size of the type; computed once and cached.
\<close>

definition list_registers :: "((string \<times> int) list) prog" where
  "list_registers =
     (\<lambda>w. case cached_reg_list w of
        Some l \<Rightarrow> (Inr l, w)
      | None \<Rightarrow>
          let l = map (\<lambda>(n, r). (n, reg_sizeof r))
                    (filter (\<lambda>(n, r). reg_type r \<in>
                        set [''long'', ''void *'', ''void (*)()'', ''union aarch64v''])
                      (registers w))
          in (Inr l, w\<lparr>cached_reg_list := Some l\<rparr>))"

text \<open>
  The wildcard pattern of \<open>inject_reg_internal\<close>:
  \<open>"^" + ".*".join(re.escape(segment) for segment in register_name.split("*")) + "$"\<close>,
  tried with \<open>re.match\<close>. The argument is the list of segments. \<open>.\<close> matches every
  character but the line feed, and \<open>$\<close> matches at the end and before a final line
  feed.
\<close>

fun wildcard_match :: "string list \<Rightarrow> string \<Rightarrow> bool" where
  "wildcard_match [] s = False"
| "wildcard_match [seg] s = (s = seg \<or> s = seg @ [CHR 0x0A])"
| "wildcard_match (seg # seg2 # segs) s =
     (prefix seg s \<and>
      (let rest = drop (length seg) s in
       list_ex (\<lambda>k. CHR 0x0A \<notin> set (take k rest) \<and> wildcard_match (seg2 # segs) (drop k rest))
         [0..<Suc (length rest)]))"

text \<open>
  \<open>random.shuffle(x)\<close>:
  \<open>for i in reversed(range(1, len(x))): j = randbelow(i + 1); x[i], x[j] = x[j], x[i]\<close>.
\<close>

fun shuffle_loop :: "nat \<Rightarrow> 'a list \<Rightarrow> ('a list) prog" where
  "shuffle_loop 0 xs = unit_p xs"
| "shuffle_loop (Suc i) xs =
     bind_p (randint_p 0 (int (Suc i))) (\<lambda>j.
       shuffle_loop i (xs[Suc i := xs ! nat j, nat j := xs ! Suc i]))"

definition shuffle :: "'a list \<Rightarrow> ('a list) prog" where
  "shuffle xs = shuffle_loop (length xs - 1) xs"

text \<open>
  The loop of \<open>inject_reg_internal\<close>:
  \<^verbatim>\<open>
      for reg in registers:
          if inject_register_bitflip(reg, bit):
              break
          print("Trying another register...")
      else:
          print("Out of registers to try!")
  \<close>
  Only \<open>True\<close> ends the loop; \<open>False\<close> and \<open>None\<close> are both falsy.
\<close>

fun try_registers :: "string list \<Rightarrow> int option \<Rightarrow> unit prog" where
  "try_registers [] bit_opt = print_p OutOfRegisters"
| "try_registers (reg # regs) bit_opt =
     bind_p (inject_register_bitflip (Some reg) bit_opt) (\<lambda>r.
       if r = Some True then unit_p ()
       else seq_p (print_p TryingAnotherRegister) (try_registers regs bit_opt))"

text \<open>\<open>inject_reg_internal(register_name, bit=None)\<close>; an empty name is falsy.\<close>

definition inject_reg_internal :: "string option \<Rightarrow> int option \<Rightarrow> unit prog" where
  "inject_reg_internal register_name bit_opt =
     bind_p list_registers (\<lambda>lr.
     let names = map fst lr;
         names1 = (case register_name of
                     None \<Rightarrow> names
                   | Some n \<Rightarrow>
                       if n = [] then names
                       else filter (wildcard_match (split n (CHR ''*''))) names)
     in if names1 = [] then print_p NoRegistersFound
        else bind_p (shuffle names1) (\<lambda>order. try_registers order bit_opt))"

subsection \<open>Random injection\<close>

text \<open>
  \<open>mtree()\<close> on the state: the monitor is asked, the warnings of the parser are
  printed. \<open>sample_address()\<close> is \<open>mtree()["memory"].random_address()\<close>.
\<close>

definition mtree_p :: "((string \<times> FlatView) list) prog" where
  "mtree_p =
     seq_p (qemu_hmp InfoMtree)
       (\<lambda>w. case mtree (mtree_reply w) of
          Inl e \<Rightarrow> (Inl e, w)
        | Inr (fvs, out) \<Rightarrow> (Inr fvs, snd (print_all out w)))"

definition random_address_p :: "FlatView \<Rightarrow> int prog" where
  "random_address_p fv =
     (let rs = ram_ranges fv; lens = range_lens rs in
      bind_p (randint_p 0 (sum_list lens - 1)) (\<lambda>offset. of_result (walk_ranges rs offset)))"

definition sample_address_p :: "int prog" where
  "sample_address_p =
     bind_p mtree_p (\<lambda>fvs.
       case map_of fvs ''memory'' of
         None \<Rightarrow> raise_p KeyError
       | Some fv \<Rightarrow> random_address_p fv)"

text \<open>\<open>step_ns(ns)\<close>.\<close>

definition step_ns :: "int \<Rightarrow> unit prog" where
  "step_ns ns = seq_p (qemu_hmp Cont) (qemu_hmp (StopDelayed ns))"

text \<open>
  \<open>autoinject_inner(times, mint, maxt, ftype)\<close>; \<open>range(times)\<close> is empty for a count
  below one.
  \<^verbatim>\<open>
      for _ in range(times):
          step_ns(random.randint(mint, maxt))
          if ftype == "reg":
              inject_reg_internal(None)
          elif ftype == "ram":
              inject_bitflip(sample_address(), 1)
  \<close>
\<close>

fun autoinject_loop :: "nat \<Rightarrow> int \<Rightarrow> int \<Rightarrow> string \<Rightarrow> unit prog" where
  "autoinject_loop 0 mint maxt ftype = unit_p ()"
| "autoinject_loop (Suc n) mint maxt ftype =
     bind_p (randint_p mint maxt) (\<lambda>ns.
     seq_p (step_ns ns) (
     seq_p (if ftype = ''reg'' then inject_reg_internal None None
            else if ftype = ''ram'' then
              bind_p sample_address_p (\<lambda>address. inject_bitflip address 1 None)
            else unit_p ())
       (autoinject_loop n mint maxt ftype)))"

definition autoinject_inner :: "int \<Rightarrow> int \<Rightarrow> int \<Rightarrow> string \<Rightarrow> unit prog" where
  "autoinject_inner times' mint maxt ftype = autoinject_loop (nat times') mint maxt ftype"

text \<open>The \<open>k\<close> bytes of guest memory at an address.\<close>

definition bytes_at :: "world \<Rightarrow> int \<Rightarrow> nat \<Rightarrow> 8 word list" where
  "bytes_at w a k = map (\<lambda>i. memory w (a + int i)) [0..<k]"

section \<open>The argument parser (parser.py)\<close>

text \<open>
  What \<open>shlex.split\<close> and \<open>parser.parse_args\<close> do with the argument string of a
  command is given from outside: \<open>shlex.split\<close> raises ValueError (an unbalanced
  quote), or \<open>parse_args\<close> runs, writes a text to the captured \<open>stderr\<close> and returns
  a namespace or raises; argparse reports an error of the user by a message on
  \<open>stderr\<close> and SystemExit. The fields of a namespace have the types the parser of
  the command gives them: a required option with \<open>type=int\<close> is an integer, an
  optional one may be \<open>None\<close>.
\<close>

datatype 'a cmdline = SplitError | Run string "py_error + 'a"

text \<open>
  \<^verbatim>\<open>
  def parse_args_safely(parser, args_str):
      try:
          args_list = shlex.split(args_str.strip()) if args_str.strip() else []
          old_stderr = sys.stderr
          sys.stderr = StringIO()
          try:
              result = parser.parse_args(args_list)
              return result
          finally:
              error_output = sys.stderr.getvalue()
              sys.stderr = old_stderr
              if error_output:
                  print(error_output.strip())
      except SystemExit:
          return None
      except Exception as e:
          print("Error parsing arguments: %s" % str(e))
          return None
  \<close>
\<close>

definition parse_args_safely :: "'a cmdline \<Rightarrow> ('a option) prog" where
  "parse_args_safely args =
     try_p
       (try_p
          (case args of
             SplitError \<Rightarrow> raise_p ValueError
           | Run error_output r \<Rightarrow>
               finally_p (bind_p (of_result r) (\<lambda>result. unit_p (Some result)))
                 (if error_output \<noteq> [] then print_p (ParserOutput (strip error_output))
                  else unit_p ()))
          (\<lambda>e. e = SystemExit) (\<lambda>e. unit_p None))
       is_Exception (\<lambda>e. seq_p (print_p ErrorParsingArguments) (unit_p None))"

section \<open>The commands (fliputils.py)\<close>

subsection \<open>\<open>inject\<close>\<close>

record inject_args =
  inj_address :: string
  inj_bytewidth :: "int option"
  inj_bit :: int

text \<open>\<open>int(gdb.parse_and_eval(expression))\<close>.\<close>

definition parse_and_eval :: "string \<Rightarrow> int prog" where
  "parse_and_eval expression =
     (\<lambda>w. case gdb_eval w expression of None \<Rightarrow> (Inl GdbError, w) | Some v \<Rightarrow> (Inr v, w))"

text \<open>
  \<^verbatim>\<open>
      parsed = parse_args_safely(parser, args)
      if parsed is None:
          return
      if parsed.address:
          try:
              address = int(gdb.parse_and_eval(parsed.address))
          except Exception as e:
              print("Error parsing address: %s" % str(e))
              return
          bytewidth = parsed.bytewidth if parsed.bytewidth is not None else 4
          if bytewidth < 1 or address < 0:
              print("invalid bytewidth or address")
              return
      else:
          address = sample_address()
          bytewidth = 1
      bit = parsed.bit
      inject_bitflip(address, bytewidth, bit)
  \<close>
  The first block yields the address and the width, or \<open>None\<close> when the command has
  returned.
\<close>

definition inject :: "inject_args cmdline \<Rightarrow> unit prog" where
  "inject args =
     bind_p (parse_args_safely args) (\<lambda>parsed.
     case parsed of
       None \<Rightarrow> unit_p ()
     | Some ns \<Rightarrow>
         bind_p
           (if inj_address ns \<noteq> [] then
              bind_p (try_p (bind_p (parse_and_eval (inj_address ns)) (\<lambda>a. unit_p (Some a)))
                        is_Exception
                        (\<lambda>e. seq_p (print_p ErrorParsingAddress) (unit_p None)))
                (\<lambda>a. case a of
                   None \<Rightarrow> unit_p None
                 | Some address \<Rightarrow>
                     let bytewidth = (case inj_bytewidth ns of Some b \<Rightarrow> b | None \<Rightarrow> 4) in
                     if bytewidth < 1 \<or> address < 0
                     then seq_p (print_p InvalidBytewidthOrAddress) (unit_p None)
                     else unit_p (Some (address, bytewidth)))
            else bind_p sample_address_p (\<lambda>address. unit_p (Some (address, 1))))
           (\<lambda>target.
              case target of
                None \<Rightarrow> unit_p ()
              | Some (address, bytewidth) \<Rightarrow>
                  inject_bitflip address bytewidth (Some (inj_bit ns))))"

subsection \<open>\<open>autoinject\<close>\<close>

record autoinject_args =
  auto_total_fault_number :: int
  auto_min_interval :: string
  auto_max_interval :: string
  auto_fault_type :: string

text \<open>
  The checked block shared by \<open>autoinject\<close> and \<open>snapinject\<close>:
  \<^verbatim>\<open>
          times = getattr(parsed, "total_fault_number")
          assert times >= 1, "fatal: times < 1"
          mint = parse_time(getattr(parsed, "min_interval"))
          maxt = parse_time(getattr(parsed, "max_interval"))
          assert 0 < mint <= maxt, "fatal: min_interval > max_interval"
  \<close>
\<close>

definition check_intervals :: "int \<Rightarrow> string \<Rightarrow> string \<Rightarrow> (int \<times> int) prog" where
  "check_intervals times' min_interval max_interval =
     (if \<not> times' \<ge> 1 then raise_p AssertionError
      else
        bind_p (of_result (parse_time min_interval)) (\<lambda>mint.
        bind_p (of_result (parse_time max_interval)) (\<lambda>maxt.
        if \<not> (0 < mint \<and> mint \<le> maxt) then raise_p AssertionError
        else unit_p (mint, maxt))))"

text \<open>
  \<^verbatim>\<open>
      parsed = parse_args_safely(parser, args)
      if parsed is None:
          return
      try:
          ... (the checked block)
          ftype = getattr(parsed, "fault_type")
      except (ValueError, AssertionError) as e:
          print("Error: %s" % str(e))
          return
      stime = time.time()
      autoinject_inner(times, mint, maxt, ftype)
      etime = time.time()
      duration = etime - stime
      print("Total injection duration: %.3f s" % duration)
  \<close>
\<close>

definition autoinject :: "autoinject_args cmdline \<Rightarrow> unit prog" where
  "autoinject args =
     bind_p (parse_args_safely args) (\<lambda>parsed.
     case parsed of
       None \<Rightarrow> unit_p ()
     | Some ns \<Rightarrow>
         bind_p
           (try_p
              (bind_p (check_intervals (auto_total_fault_number ns) (auto_min_interval ns)
                         (auto_max_interval ns))
                 (\<lambda>(mint, maxt). unit_p (Some (mint, maxt))))
              (\<lambda>e. e = ValueError \<or> e = AssertionError)
              (\<lambda>e. seq_p (print_p (ErrorMessage e)) (unit_p None)))
           (\<lambda>checked.
              case checked of
                None \<Rightarrow> unit_p ()
              | Some (mint, maxt) \<Rightarrow>
                  seq_p (autoinject_inner (auto_total_fault_number ns) mint maxt
                           (auto_fault_type ns))
                    (print_p TotalInjectionDuration)))"

subsection \<open>\<open>snapinject\<close>\<close>

record snapinject_args =
  snap_total_fault_number :: int
  snap_min_interval :: string
  snap_max_interval :: string
  snap_fault_type :: string
  snap_fault_location :: "string option"
  snap_bit_index :: "int option"
  snap_observe_time :: string
  snap_snapshot_tag :: "string option"

text \<open>
  The name of a snapshot is the object \<open>uuid.uuid4()\<close> returned or the string of
  \<open>--snapshot-tag\<close>; a string never equals a UUID object.
\<close>

datatype snapshot_name = Uuid string | Tag string

definition name_text :: "snapshot_name \<Rightarrow> string" where
  "name_text n = (case n of Uuid u \<Rightarrow> u | Tag t \<Rightarrow> t)"

definition uuid4 :: "snapshot_name prog" where
  "uuid4 = (\<lambda>w. (Inr (Uuid (uuid w)), w))"

text \<open>\<open>int(location, 16)\<close>: TypeError for \<open>None\<close>, ValueError for a string that is no number.\<close>

definition int16 :: "string option \<Rightarrow> py_error + int" where
  "int16 location =
     (case location of
        None \<Rightarrow> Inl TypeError
      | Some s \<Rightarrow> (case py_int 16 s of None \<Rightarrow> Inl ValueError | Some a \<Rightarrow> Inr a))"

text \<open>
  The loop of \<open>snapinject\<close> for a given location or bit; the result says whether the
  command has returned from inside the loop.
  \<^verbatim>\<open>
          for _ in range(times):
              step_ns(random.randint(mint, maxt))
              if ftype == "ram":
                  try:
                      address = int(location, 16)
                      inject_bitflip(address, 1, bit_index)
                  except ValueError as e:
                      print("Error parsing RAM address: %s" % str(e))
                      return
              elif ftype == "reg":
                  inject_register_bitflip(location, bit_index)
  \<close>
\<close>

fun snap_loop :: "nat \<Rightarrow> int \<Rightarrow> int \<Rightarrow> string \<Rightarrow> string option \<Rightarrow> int option \<Rightarrow> bool prog" where
  "snap_loop 0 mint maxt ftype location bit_index = unit_p False"
| "snap_loop (Suc n) mint maxt ftype location bit_index =
     bind_p (randint_p mint maxt) (\<lambda>ns.
     seq_p (step_ns ns) (
     bind_p
       (if ftype = ''ram'' then
          try_p
            (bind_p (of_result (int16 location)) (\<lambda>address.
               seq_p (inject_bitflip address 1 bit_index) (unit_p False)))
            (\<lambda>e. e = ValueError)
            (\<lambda>e. seq_p (print_p ErrorParsingRamAddress) (unit_p True))
        else if ftype = ''reg'' then
          bind_p (inject_register_bitflip location bit_index) (\<lambda>r. unit_p False)
        else unit_p False)
       (\<lambda>returned.
          if returned then unit_p True
          else snap_loop n mint maxt ftype location bit_index)))"

text \<open>
  \<^verbatim>\<open>
      parsed = parse_args_safely(parser, args)
      if parsed is None:
          return
      try:
          ... (the checked block)
          ftype = getattr(parsed, "fault_type")
          obtime = parse_time(getattr(parsed, "observe_time"))
      except (ValueError, AssertionError) as e:
          print("Error: %s" % str(e))
          return
      tmpname = uuid.uuid4()
      location = getattr(parsed, "fault_location")
      bit_index = getattr(parsed, "bit_index")
      if (location is None and bit_index is not None) and (location is not None and bit_index is None):
          print("Error: --bit-index and --fault-location must be both specified or both omitted.")
          return
      snapname = getattr(parsed, "snapshot_tag") if getattr(parsed, "snapshot_tag") else tmpname
      if snapname == tmpname:
          qemu_hmp("savevm %s" % snapname)
          print("Create a tmp checkpoint %s" % snapname)
      else:
          qemu_hmp("loadvm %s" % snapname)
          print("Load checkpoint %s" % snapname)
      stime = time.time()
      if location is None and bit_index is None:
          autoinject_inner(times, mint, maxt, ftype)
      else:
          ... (the loop)
      etime = time.time()
      duration = etime - stime
      print("Total injection duration: %.3f s" % duration)
      print("Observing VM %s" % getattr(parsed, "observe_time"))
      step_ns(obtime)
      print("time up.")
      if snapname == tmpname:
          qemu_hmp("loadvm %s" % snapname)
          print("Back to checkpoint %s finished." % snapname)
          qemu_hmp("delvm %s" % tmpname)
          print("Delete tmp VM checkpoint")
      send_to_qemu_serial("\r")
  \<close>
  No module of the repository defines \<open>send_to_qemu_serial\<close>: the last statement
  raises NameError.
\<close>

definition snapinject :: "snapinject_args cmdline \<Rightarrow> unit prog" where
  "snapinject args =
     bind_p (parse_args_safely args) (\<lambda>parsed.
     case parsed of
       None \<Rightarrow> unit_p ()
     | Some ns \<Rightarrow>
         bind_p
           (try_p
              (bind_p (check_intervals (snap_total_fault_number ns) (snap_min_interval ns)
                         (snap_max_interval ns))
                 (\<lambda>(mint, maxt).
               bind_p (of_result (parse_time (snap_observe_time ns))) (\<lambda>obtime.
                 unit_p (Some (mint, maxt, obtime)))))
              (\<lambda>e. e = ValueError \<or> e = AssertionError)
              (\<lambda>e. seq_p (print_p (ErrorMessage e)) (unit_p None)))
           (\<lambda>checked.
              case checked of
                None \<Rightarrow> unit_p ()
              | Some (mint, maxt, obtime) \<Rightarrow>
                  bind_p uuid4 (\<lambda>tmpname.
                  let location = snap_fault_location ns;
                      bit_index = snap_bit_index ns
                  in
                  if (location = None \<and> bit_index \<noteq> None) \<and> (location \<noteq> None \<and> bit_index = None)
                  then print_p BothOrNeither
                  else
                    let snapname =
                          (case snap_snapshot_tag ns of
                             None \<Rightarrow> tmpname
                           | Some t \<Rightarrow> if t \<noteq> [] then Tag t else tmpname)
                    in
                    seq_p
                      (if snapname = tmpname then
                         seq_p (qemu_hmp (Savevm (name_text snapname)))
                           (print_p (CreateTmpCheckpoint (name_text snapname)))
                       else
                         seq_p (qemu_hmp (Loadvm (name_text snapname)))
                           (print_p (LoadCheckpoint (name_text snapname))))
                      (bind_p
                         (if location = None \<and> bit_index = None then
                            seq_p (autoinject_inner (snap_total_fault_number ns) mint maxt
                                     (snap_fault_type ns))
                              (unit_p False)
                          else snap_loop (nat (snap_total_fault_number ns)) mint maxt
                                 (snap_fault_type ns) location bit_index)
                         (\<lambda>returned.
                            if returned then unit_p ()
                            else
                              seq_p (print_p TotalInjectionDuration) (
                              seq_p (print_p (ObservingVM (snap_observe_time ns))) (
                              seq_p (step_ns obtime) (
                              seq_p (print_p TimeUp) (
                              seq_p
                                (if snapname = tmpname then
                                   seq_p (qemu_hmp (Loadvm (name_text snapname))) (
                                   seq_p (print_p (BackToCheckpoint (name_text snapname))) (
                                   seq_p (qemu_hmp (Delvm (name_text tmpname)))
                                     (print_p DeleteTmpCheckpoint)))
                                 else unit_p ())
                                (raise_p NameError))))))))))"

subsection \<open>\<open>appinject\<close>\<close>

text \<open>
  A text file as \<open>open(path, "r")\<close> delivers it: \<open>\r\n\<close> and \<open>\r\<close> become \<open>\n\<close>. A file
  that does not exist raises OSError.
\<close>

fun universal_newlines :: "string \<Rightarrow> string" where
  "universal_newlines [] = []"
| "universal_newlines [c] = (if c = CHR 0x0D then [CHR 0x0A] else [c])"
| "universal_newlines (c # d # cs) =
     (if c = CHR 0x0D \<and> d = CHR 0x0A then CHR 0x0A # universal_newlines cs
      else if c = CHR 0x0D then CHR 0x0A # universal_newlines (d # cs)
      else c # universal_newlines (d # cs))"

definition open_read :: "string \<Rightarrow> string prog" where
  "open_read path =
     (\<lambda>w. case files w path of
        None \<Rightarrow> (Inl OSError, w)
      | Some text \<Rightarrow> (Inr (universal_newlines text), w))"

text \<open>
  The body of the \<open>try\<close> of \<open>parse_address_ranges_file\<close>, for one stripped line:
  \<^verbatim>\<open>
                  start_str, end_str = line.split("-")
                  start = int(start_str, 16)
                  end = int(end_str, 16)
                  address_list.extend(range(start, end, 1))
  \<close>
\<close>

definition range_of_line :: "string \<Rightarrow> py_error + int list" where
  "range_of_line line =
     (case split line (CHR ''-'') of
        [start_str, end_str] \<Rightarrow>
          (case py_int 16 start_str of
             None \<Rightarrow> Inl ValueError
           | Some start \<Rightarrow>
               (case py_int 16 end_str of
                  None \<Rightarrow> Inl ValueError
                | Some end' \<Rightarrow> Inr [start..end' - 1]))
      | _ \<Rightarrow> Inl ValueError)"

text \<open>
  \<^verbatim>\<open>
          for line in f:
              line = line.strip()
              if not line or "-" not in line:
                  continue
              try:
                  ...
              except Exception as e:
                  print(f"Invalid line in range file: {line} ({e})")
  \<close>
  The lines of the file are the pieces between line feeds; the empty piece after a
  final line feed is no line of the file, and as a blank line it changes nothing.
\<close>

fun range_file_loop :: "string list \<Rightarrow> int list \<Rightarrow> (int list) prog" where
  "range_file_loop [] address_list = unit_p address_list"
| "range_file_loop (l # ls) address_list =
     (let line = strip l in
      if line = [] \<or> CHR ''-'' \<notin> set line then range_file_loop ls address_list
      else
        bind_p
          (try_p
             (bind_p (of_result (range_of_line line)) (\<lambda>r. unit_p (address_list @ r)))
             is_Exception
             (\<lambda>e. seq_p (print_p (InvalidLineInRangeFile line)) (unit_p address_list)))
          (\<lambda>address_list1. range_file_loop ls address_list1))"

definition parse_address_ranges_file :: "string \<Rightarrow> (int list) prog" where
  "parse_address_ranges_file path =
     bind_p (open_read path) (\<lambda>text. range_file_loop (split text (CHR 0x0A)) [])"

text \<open>
  \<open>random.sample(population, k)\<close>: ValueError when \<open>k\<close> exceeds the population;
  otherwise the elements at \<open>k\<close> distinct positions, drawn one after the other from
  a pool: \<open>j = randbelow(n - i); result[i] = pool[j]; pool[j] = pool[n - i - 1]\<close>.
  (For large populations CPython draws positions and rejects repeated ones instead;
  the possible results are the same.)
\<close>

fun sample_loop :: "nat \<Rightarrow> 'a list \<Rightarrow> nat \<Rightarrow> ('a list) prog" where
  "sample_loop 0 pool m = unit_p []"
| "sample_loop (Suc k) pool m =
     bind_p (randint_p 0 (int m - 1)) (\<lambda>j.
     bind_p (sample_loop k (pool[nat j := pool ! (m - 1)]) (m - 1)) (\<lambda>rest.
     unit_p (pool ! nat j # rest)))"

definition sample :: "'a list \<Rightarrow> nat \<Rightarrow> ('a list) prog" where
  "sample population k =
     (if length population < k then raise_p ValueError
      else sample_loop k population (length population))"

text \<open>
  The objects of argparse that \<open>appinject\<close> handles: \<open>ArgumentParser.add_argument\<close>
  returns the \<open>Action\<close> it has created, and an \<open>Action\<close> has no attribute
  \<open>add_argument\<close>.
\<close>

datatype py_object = ArgumentParser "string list" | Action string

definition add_argument :: "py_object \<Rightarrow> string \<Rightarrow> py_error + py_object" where
  "add_argument obj flag =
     (case obj of
        ArgumentParser flags \<Rightarrow> Inr (Action flag)
      | Action f \<Rightarrow> Inl AttributeError)"

record appinject_args =
  app_total_fault_number :: int
  app_range_file :: string

text \<open>
  \<^verbatim>\<open>
      for address in targets:
          try:
              inject_bitflip(address, 1)
          except Exception as e:
              print(f"Injection failed at 0x{address:x}: {e}")
  \<close>
\<close>

fun inject_all :: "int list \<Rightarrow> unit prog" where
  "inject_all [] = unit_p ()"
| "inject_all (address # targets) =
     seq_p (try_p (inject_bitflip address 1 None) is_Exception
              (\<lambda>e. print_p (InjectionFailedAt address e)))
       (inject_all targets)"

text \<open>
  \<^verbatim>\<open>
      parser = (
          argparse.ArgumentParser(...)
          .add_argument("--total-fault-number", type=int, ..., required=True)
          .add_argument("--range-file", ..., required=True)
      )
      parsed = parse_args_safely(parser, args)
      if parsed is None:
          return
      path = parsed.range_file
      try:
          count = int(parsed.total_fault_number)
          if count <= 0:
              raise ValueError
      except ValueError:
          print("Invalid count")
          return
      addresses = parse_address_ranges_file(path)
      if len(addresses) == 0:
          print("No valid addresses found in file.")
          return
      if count > len(addresses):
          print(f"Requested {count} injections, but only {len(addresses)} addresses found.")
          return
      print(f"Performing {count} bitflip injections from {len(addresses)} available addresses...")
      targets = random.sample(addresses, count)
      for address in targets:
          ...
  \<close>
\<close>

definition appinject :: "appinject_args cmdline \<Rightarrow> unit prog" where
  "appinject args =
     bind_p (of_result
               (case add_argument (ArgumentParser []) ''--total-fault-number'' of
                  Inl e \<Rightarrow> Inl e
                | Inr obj \<Rightarrow> add_argument obj ''--range-file''))
       (\<lambda>parser.
     bind_p (parse_args_safely args) (\<lambda>parsed.
     case parsed of
       None \<Rightarrow> unit_p ()
     | Some ns \<Rightarrow>
         let path = app_range_file ns in
         bind_p
           (try_p
              (let count = app_total_fault_number ns in
               if count \<le> 0 then raise_p ValueError else unit_p (Some count))
              (\<lambda>e. e = ValueError)
              (\<lambda>e. seq_p (print_p InvalidCount) (unit_p None)))
           (\<lambda>c. case c of
              None \<Rightarrow> unit_p ()
            | Some count \<Rightarrow>
                bind_p (parse_address_ranges_file path) (\<lambda>addresses.
                if length addresses = 0 then print_p NoValidAddresses
                else if count > int (length addresses)
                then print_p (RequestedTooMany count (length addresses))
                else
                  seq_p (print_p (PerformingInjections count (length addresses))) (
                  bind_p (sample addresses (nat count)) (\<lambda>targets.
                  inject_all targets))))))"

section \<open>Observations on the state\<close>

text \<open>The state after the given messages were printed.\<close>

definition printed :: "world \<Rightarrow> message list \<Rightarrow> world" where
  "printed w ms = w\<lparr>trace := trace w @ map Printed ms\<rparr>"

text \<open>A piece of the program only adds to the trace.\<close>

definition extends :: "'a prog \<Rightarrow> bool" where
  "extends m = (\<forall>w. prefix (trace w) (trace (snd (m w))))"

section \<open>Concrete inputs\<close>

definition example_view :: FlatView where
  "example_view = \<lparr>ranges =
     [\<lparr>mr_start = 0, mr_end = 0xffff, mr_priority = 0, mr_kind = ''i/o'', mr_name = ''io''\<rparr>,
      \<lparr>mr_start = 0x1000, mr_end = 0x1004, mr_priority = 0, mr_kind = ''ram'', mr_name = ''a''\<rparr>,
      \<lparr>mr_start = 0x2000, mr_end = 0x2008, mr_priority = 0, mr_kind = ''ram'', mr_name = ''b''\<rparr>]\<rparr>"

definition nl :: string where
  "nl = [CHR 0x0A]"

text \<open>A memory tree with two rendered flat views; the guest has no RAM.\<close>

definition mtree_text_no_ram :: string where
  "mtree_text_no_ram =
     ''FlatView #0'' @ nl @
     '' AS '' @ [dquote] @ ''I/O'' @ [dquote] @ '', root: io'' @ nl @
     '' Root memory region: io'' @ nl @
     ''  0000000000000000-000000000000ffff (prio 0, i/o): io'' @ nl @
     nl @
     ''FlatView #1'' @ nl @
     '' AS '' @ [dquote] @ ''memory'' @ [dquote] @ '', root: system'' @ nl @
     '' Root memory region: system'' @ nl @
     ''  0000000000000000-0000000003ffffff (prio 0, romd): virt.flash0'' @ nl"


definition view_io :: FlatView where
  "view_io = \<lparr>ranges =
     [\<lparr>mr_start = 0, mr_end = 0xffff, mr_priority = 0, mr_kind = ''i/o'', mr_name = ''io''\<rparr>]\<rparr>"

definition view_flash :: FlatView where
  "view_flash = \<lparr>ranges =
     [\<lparr>mr_start = 0, mr_end = 0x3ffffff, mr_priority = 0, mr_kind = ''romd'',
       mr_name = ''virt.flash0''\<rparr>]\<rparr>"



text \<open>A memory tree whose address space "memory" has one RAM range.\<close>

definition mtree_text_ram :: string where
  "mtree_text_ram =
     ''FlatView #0'' @ nl @
     '' AS '' @ [dquote] @ ''memory'' @ [dquote] @ '', root: system'' @ nl @
     '' Root memory region: system'' @ nl @
     ''  0000000000001000-0000000000001fff (prio 0, ram): mach-virt.ram'' @ nl"

text \<open>
  Three registers: one that takes every write, one that is read-only, and one whose
  content after a write is neither the old nor the written value.
\<close>

definition example_registers :: "(string \<times> register) list" where
  "example_registers =
     [(''x0'', \<lparr>reg_type = ''long'', reg_sizeof = 8, reg_cells = (\<lambda>i. 5),
               reg_reaction = (\<lambda>old v. Some v)\<rparr>),
      (''x1'', \<lparr>reg_type = ''long'', reg_sizeof = 8, reg_cells = (\<lambda>i. 5),
               reg_reaction = (\<lambda>old v. Some old)\<rparr>),
      (''x2'', \<lparr>reg_type = ''long'', reg_sizeof = 8, reg_cells = (\<lambda>i. 5),
               reg_reaction = (\<lambda>old v. Some (v + 2))\<rparr>)]"

text \<open>
  A session: the word 0xDEADBEEF at address 0x1000 of a RAM that accepts writes, a
  range file with the one line \<open>0x1000-0x1004\<close>, no logger.
\<close>

definition example_world :: world where
  "example_world =
     \<lparr>memory = (\<lambda>x. if x = 0x1000 then 0xEF else if x = 0x1001 then 0xBE
                    else if x = 0x1002 then 0xAD else if x = 0x1003 then 0xDE else 0),
      mapped = (\<lambda>x. 0 \<le> x \<and> x < 0x10000),
      writable = (\<lambda>x. 0x1000 \<le> x \<and> x < 0x2000),
      registers = example_registers,
      mtree_reply = mtree_text_ram,
      gdb_eval = (\<lambda>s. if s = ''0x1000'' then Some 0x1000 else None),
      files = (\<lambda>p. if p = ''ranges.txt'' then Some (''0x1000-0x1004'' @ nl) else None),
      logger = None,
      csv_ok = True,
      cached_reg_list = None,
      entropy = (\<lambda>n. 3),
      draws = 0,
      uuid = ''c0ffee'',
      trace = []\<rparr>"

text \<open>What argparse writes to \<open>stderr\<close> before it exits (shortened).\<close>

definition usage_text :: string where
  "usage_text = ''usage: inject'' @ nl"

text \<open>
  Two invocations of \<open>snapinject\<close> with one half of the pair: \<open>--fault-location\<close>
  without \<open>--bit-index\<close>, and \<open>--bit-index\<close> without \<open>--fault-location\<close>.
\<close>

definition snap_loc_only :: snapinject_args where
  "snap_loc_only =
     \<lparr>snap_total_fault_number = 1, snap_min_interval = ''1ms'', snap_max_interval = ''1ms'',
      snap_fault_type = ''ram'', snap_fault_location = Some ''0x1000'', snap_bit_index = None,
      snap_observe_time = ''1ms'', snap_snapshot_tag = None\<rparr>"

definition snap_bit_only :: snapinject_args where
  "snap_bit_only =
     \<lparr>snap_total_fault_number = 1, snap_min_interval = ''1ms'', snap_max_interval = ''1ms'',
      snap_fault_type = ''ram'', snap_fault_location = None, snap_bit_index = Some 3,
      snap_observe_time = ''1ms'', snap_snapshot_tag = None\<rparr>"
section \<open>Properties of random sampling\<close>

lemma walk_ranges_spec_walk:
  "walk_ranges rs off = (case spec_walk rs off of None \<Rightarrow> Inl AssertionError | Some a \<Rightarrow> Inr a)"
proof (induction rs arbitrary: off)
  case Nil
  show ?case by simp
next
  case (Cons p rs)
  obtain s e where p: "p = (s, e)" by (cases p)
  have eq: "off + s - e = off - (e - s)" by simp
  show ?case
    by (simp add: p Let_def Cons.IH eq)
qed

lemma spec_walk_in_range:
  assumes "\<forall>p \<in> set rs. fst p < snd p" and "0 \<le> off" and "off < sum_list (range_lens rs)"
  shows "\<exists>i < length rs.
           sum_list (range_lens (take i rs)) \<le> off \<and>
           off < sum_list (range_lens (take i rs)) + (snd (rs ! i) - fst (rs ! i)) \<and>
           spec_walk rs off = Some (fst (rs ! i) + (off - sum_list (range_lens (take i rs))))"
  using assms
proof (induction rs arbitrary: off)
  case Nil
  then show ?case by (simp add: range_lens_def)
next
  case (Cons p rs)
  obtain s e where p: "p = (s, e)" by (cases p)
  show ?case
  proof (cases "off < e - s")
    case True
    have "sum_list (range_lens (take 0 (p # rs))) \<le> off"
      using Cons.prems(2) by (simp add: range_lens_def)
    moreover have "off < sum_list (range_lens (take 0 (p # rs))) + (snd ((p # rs) ! 0) - fst ((p # rs) ! 0))"
      using True by (simp add: range_lens_def p)
    moreover have "spec_walk (p # rs) off =
        Some (fst ((p # rs) ! 0) + (off - sum_list (range_lens (take 0 (p # rs)))))"
      using True by (simp add: range_lens_def p)
    ultimately show ?thesis by (intro exI [of _ 0]) simp
  next
    case False
    let ?off = "off - (e - s)"
    have a: "\<forall>q \<in> set rs. fst q < snd q" using Cons.prems(1) by simp
    have b: "0 \<le> ?off" using False by simp
    have c: "?off < sum_list (range_lens rs)"
      using Cons.prems(3) by (simp add: range_lens_def p)
    from Cons.IH [OF a b c] obtain i where i: "i < length rs"
      and lo: "sum_list (range_lens (take i rs)) \<le> ?off"
      and hi: "?off < sum_list (range_lens (take i rs)) + (snd (rs ! i) - fst (rs ! i))"
      and r: "spec_walk rs ?off = Some (fst (rs ! i) + (?off - sum_list (range_lens (take i rs))))"
      by blast
    have pre: "sum_list (range_lens (take (Suc i) (p # rs))) = (e - s) + sum_list (range_lens (take i rs))"
      by (simp add: range_lens_def p)
    have "Suc i < length (p # rs)" using i by simp
    moreover have "sum_list (range_lens (take (Suc i) (p # rs))) \<le> off"
      using lo pre by simp
    moreover have "off < sum_list (range_lens (take (Suc i) (p # rs)))
        + (snd ((p # rs) ! Suc i) - fst ((p # rs) ! Suc i))"
      using hi pre by simp
    moreover have "spec_walk (p # rs) off =
        Some (fst ((p # rs) ! Suc i) + (off - sum_list (range_lens (take (Suc i) (p # rs)))))"
      using False r pre by (simp add: p)
    ultimately show ?thesis by blast
  qed
qed


lemma randint_in_range:
  assumes "0 \<le> off" and "off < n"
  shows "randint 0 (n - 1) off = Inr off"
  using assms by (simp add: randint_def)

lemma ram_ranges_example_view: "ram_ranges example_view = [(0x1000, 0x1004), (0x2000, 0x2008)]"
  by (simp add: example_view_def ram_ranges_def)

lemma ram_ranges_records:
  "ram_ranges fv = map (\<lambda>r. (mr_start r, mr_end r)) (filter (\<lambda>r. mr_kind r = ''ram'') (ranges fv))"
  by (simp add: ram_ranges_def)

lemma range_lens_records:
  "range_lens (map (\<lambda>r. (mr_start r, mr_end r)) rs) = map (\<lambda>r. mr_end r - mr_start r) rs"
  by (simp add: range_lens_def)

text \<open>
  Claim C1. Take the ranges of the view whose kind is "ram", in order. When each of
  them has start < end and the drawn offset \<open>off\<close> lies in \<open>[0, L)\<close>, with \<open>L\<close> the sum
  of their widths, \<open>random_address\<close> returns an address, the same one as the reference
  algorithm of the specification run on their (start, end) pairs:
  \<open>start_i + (off - prefix_sum_i)\<close> for the RAM range \<open>i\<close> whose width interval contains
  \<open>off\<close>. That range is a range of the view of kind "ram", and the address lies
  inside it.
\<close>

theorem random_address_refines_reference:
  assumes "\<forall>r \<in> set (ranges fv). mr_kind r = ''ram'' \<longrightarrow> mr_start r < mr_end r"
    and "0 \<le> off"
    and "off < sum_list (map (\<lambda>r. mr_end r - mr_start r)
                   (filter (\<lambda>r. mr_kind r = ''ram'') (ranges fv)))"
  shows "let rams = filter (\<lambda>r. mr_kind r = ''ram'') (ranges fv) in
         \<exists>a i. random_address fv off = Inr a \<and>
           spec_walk (map (\<lambda>r. (mr_start r, mr_end r)) rams) off = Some a \<and>
           i < length rams \<and>
           sum_list (map (\<lambda>r. mr_end r - mr_start r) (take i rams)) \<le> off \<and>
           off < sum_list (map (\<lambda>r. mr_end r - mr_start r) (take i rams))
                 + (mr_end (rams ! i) - mr_start (rams ! i)) \<and>
           a = mr_start (rams ! i)
               + (off - sum_list (map (\<lambda>r. mr_end r - mr_start r) (take i rams))) \<and>
           rams ! i \<in> set (ranges fv) \<and> mr_kind (rams ! i) = ''ram'' \<and>
           mr_start (rams ! i) \<le> a \<and> a < mr_end (rams ! i)"
proof -
  define rams where "rams = filter (\<lambda>r. mr_kind r = ''ram'') (ranges fv)"
  let ?rs = "map (\<lambda>r. (mr_start r, mr_end r)) rams"
  have rr: "ram_ranges fv = ?rs" by (simp add: ram_ranges_records rams_def)
  have lens: "range_lens ?rs = map (\<lambda>r. mr_end r - mr_start r) rams"
    by (rule range_lens_records)
  have h1: "\<forall>p \<in> set ?rs. fst p < snd p"
    using assms(1) by (auto simp: rams_def)
  have h3: "off < sum_list (range_lens ?rs)"
    using assms(3) by (simp add: range_lens_records rams_def)
  from spec_walk_in_range [OF h1 assms(2) h3] obtain i where i: "i < length ?rs"
    and lo: "sum_list (range_lens (take i ?rs)) \<le> off"
    and hi: "off < sum_list (range_lens (take i ?rs)) + (snd (?rs ! i) - fst (?rs ! i))"
    and r: "spec_walk ?rs off = Some (fst (?rs ! i) + (off - sum_list (range_lens (take i ?rs))))"
    by blast
  have il: "i < length rams" using i by simp
  have tk: "range_lens (take i ?rs) = map (\<lambda>r. mr_end r - mr_start r) (take i rams)"
    by (simp add: range_lens_def take_map)
  have nth: "fst (?rs ! i) = mr_start (rams ! i)" "snd (?rs ! i) = mr_end (rams ! i)"
    using il by simp_all
  let ?p = "sum_list (map (\<lambda>r. mr_end r - mr_start r) (take i rams))"
  let ?a = "mr_start (rams ! i) + (off - ?p)"
  have draw: "randint 0 (sum_list (range_lens ?rs) - 1) off = Inr off"
    using assms(2) h3 by (rule randint_in_range)
  have "random_address fv off = walk_ranges ?rs off"
    by (simp add: random_address_def Let_def rr draw)
  also have "\<dots> = Inr ?a"
    using r by (simp add: walk_ranges_spec_walk tk nth)
  finally have ra: "random_address fv off = Inr ?a" .
  have sw: "spec_walk ?rs off = Some ?a" using r by (simp add: tk nth)
  have lo': "?p \<le> off" using lo by (simp add: tk)
  have hi': "off < ?p + (mr_end (rams ! i) - mr_start (rams ! i))" using hi by (simp add: tk nth)
  have mem: "rams ! i \<in> set rams" using il by simp
  then have inview: "rams ! i \<in> set (ranges fv)" and kind: "mr_kind (rams ! i) = ''ram''"
    by (simp_all add: rams_def)
  have "mr_start (rams ! i) \<le> ?a" using lo' by simp
  moreover have "?a < mr_end (rams ! i)" using hi' by simp
  ultimately have "\<exists>a i. random_address fv off = Inr a \<and>
           spec_walk ?rs off = Some a \<and>
           i < length rams \<and>
           sum_list (map (\<lambda>r. mr_end r - mr_start r) (take i rams)) \<le> off \<and>
           off < sum_list (map (\<lambda>r. mr_end r - mr_start r) (take i rams))
                 + (mr_end (rams ! i) - mr_start (rams ! i)) \<and>
           a = mr_start (rams ! i)
               + (off - sum_list (map (\<lambda>r. mr_end r - mr_start r) (take i rams))) \<and>
           rams ! i \<in> set (ranges fv) \<and> mr_kind (rams ! i) = ''ram'' \<and>
           mr_start (rams ! i) \<le> a \<and> a < mr_end (rams ! i)"
    using ra sw il lo' hi' inview kind by blast
  then show ?thesis by (simp add: Let_def rams_def)
qed

theorem random_address_refines_reference_witness:
  "random_address example_view 6 = Inr 0x2002 \<and>
   spec_walk [(0x1000, 0x1004), (0x2000, 0x2008)] 6 = Some 0x2002"
proof -
  have f: "filter (\<lambda>r. mr_kind r = ''ram'') (ranges example_view) =
     [\<lparr>mr_start = 0x1000, mr_end = 0x1004, mr_priority = 0, mr_kind = ''ram'', mr_name = ''a''\<rparr>,
      \<lparr>mr_start = 0x2000, mr_end = 0x2008, mr_priority = 0, mr_kind = ''ram'', mr_name = ''b''\<rparr>]"
    by (simp add: example_view_def)
  have h1: "\<forall>r \<in> set (ranges example_view). mr_kind r = ''ram'' \<longrightarrow> mr_start r < mr_end r"
    by (simp add: example_view_def)
  have h2: "(0::int) \<le> 6" by simp
  have h3: "6 < sum_list (map (\<lambda>r. mr_end r - mr_start r)
                 (filter (\<lambda>r. mr_kind r = ''ram'') (ranges example_view)))"
    by (simp add: f)
  from random_address_refines_reference [OF h1 h2 h3]
  obtain a where "random_address example_view 6 = Inr a"
    and "spec_walk [(0x1000, 0x1004), (0x2000, 0x2008)] 6 = Some a"
    by (auto simp: Let_def f)
  then show ?thesis by simp
qed

section \<open>Properties of the duration parser\<close>

lemma sorted_time_units:
  "sort_key fst time_units =
     [('''', 1), (''m'', 60000000000), (''ms'', 1000000), (''ns'', 1), (''s'', 1000000000),
      (''us'', 1000)]"
  by code_simp

lemma py_int_empty: "py_int b [] = None"
  by (simp add: py_int_def int_strip_def)

text \<open>
  The empty unit is tried first and never converts: \<open>s[:-len("")]\<close> is \<open>s[:0]\<close>, the
  empty string. So a literal without a unit is parsed by no entry of the table.
\<close>

lemma parse_time_digits_only:
  assumes "s \<noteq> []" and "is_digit (last s)"
  shows "parse_time s = Inl ValueError"
proof -
  have l: "last s \<noteq> CHR ''m''" "last s \<noteq> CHR ''s''"
    using assms(2) by (auto simp: is_digit_def)
  have nm: "\<not> endswith s (u @ [c])" if "last s \<noteq> c" for u c
    using that assms(1) by (auto simp: endswith_def suffix_def)
  have e1: "\<not> endswith s ''m''" using nm [of "CHR ''m''" "[]"] l by simp
  have e2: "\<not> endswith s ''ms''" using nm [of "CHR ''s''" "''m''"] l by simp
  have e3: "\<not> endswith s ''ns''" using nm [of "CHR ''s''" "''n''"] l by simp
  have e4: "\<not> endswith s ''s''" using nm [of "CHR ''s''" "[]"] l by simp
  have e5: "\<not> endswith s ''us''" using nm [of "CHR ''s''" "''u''"] l by simp
  show ?thesis
    by (simp add: parse_time_def sorted_time_units py_slice_to_def py_int_empty e1 e2 e3 e4 e5)
qed

text \<open>
  Claim C2 (the code departs from it). The entries of the suffix table with a unit
  behave as the contract says, and a zero count fails; but a literal with no suffix,
  which the contract maps to nanoseconds, is rejected: \<open>parse_time("7")\<close> raises
  ValueError instead of returning 7.
\<close>

theorem parse_time_examples:
  "parse_time ''7'' = Inl ValueError \<and>
   parse_time ''10s'' = Inr 10000000000 \<and>
   parse_time ''0ms'' = Inl ValueError \<and>
   parse_time ''5ms'' = Inr 5000000 \<and>
   parse_time ''5000us'' = Inr 5000000 \<and>
   parse_time ''5000000ns'' = Inr 5000000 \<and>
   parse_time ''1m'' = Inr 60000000000"
  by code_simp

section \<open>Properties of the memory-tree parser\<close>

lemma mtree_no_ram:
  "mtree mtree_text_no_ram = Inr ([(''I/O'', view_io), (''memory'', view_flash)], [])"
  by code_simp











subsection \<open>Lines of a section that are no range lines\<close>











lemma sum_list_all_zero: "\<forall>x \<in> set xs. x = (0::int) \<Longrightarrow> sum_list xs = 0"
  by (induction xs) auto

text \<open>
  Claim C10. A flat view without a RAM range of positive length (none at all, or each
  with end = start) makes \<open>random_address\<close> raise: the sum of the lengths is 0 and
  \<open>random.randint(0, -1)\<close> raises ValueError. So does \<open>sample_address\<close> when the view of
  the address space "memory" is such a view.
\<close>

theorem random_address_without_ram_raises:
  assumes "\<forall>p \<in> set (ram_ranges fv). snd p = fst p"
  shows "random_address fv r = Inl ValueError \<and>
         (mtree output = Inr (fvs, out) \<and> map_of fvs ''memory'' = Some fv
            \<longrightarrow> sample_address output r = Inl ValueError)"
proof -
  have "\<forall>x \<in> set (range_lens (ram_ranges fv)). x = 0"
    using assms by (auto simp: range_lens_def)
  then have "sum_list (range_lens (ram_ranges fv)) = 0"
    by (rule sum_list_all_zero)
  then have ra: "random_address fv r = Inl ValueError"
    by (simp add: random_address_def Let_def randint_def)
  then show ?thesis by (simp add: sample_address_def)
qed

theorem random_address_without_ram_raises_witness:
  "random_address view_flash 5 = Inl ValueError \<and>
   sample_address mtree_text_no_ram 5 = Inl ValueError"
proof -
  have h: "\<forall>p \<in> set (ram_ranges view_flash). snd p = fst p"
    by (simp add: ram_ranges_def view_flash_def)
  have m: "map_of [(''I/O'', view_io), (''memory'', view_flash)] ''memory'' = Some view_flash"
    by simp
  from random_address_without_ram_raises [OF h, of 5 mtree_text_no_ram
      "[(''I/O'', view_io), (''memory'', view_flash)]" "[]"] mtree_no_ram m
  show ?thesis by simp
qed

section \<open>Properties of the range-line parser\<close>

lemma hex_not_space: "is_hex c \<Longrightarrow> \<not> is_space c"
  by (auto simp: is_hex_def is_space_def Let_def)

lemma digit_is_hex: "is_digit c \<Longrightarrow> is_hex c"
  by (auto simp: is_hex_def is_digit_def Let_def)

lemma hex_not_sign: "is_hex c \<Longrightarrow> c \<noteq> CHR ''-'' \<and> c \<noteq> CHR ''+''"
  by (auto simp: is_hex_def Let_def)

lemma dropWhile_none: "\<forall>c \<in> set xs. \<not> P c \<Longrightarrow> dropWhile P xs = xs"
  by (cases xs) auto

lemma strip_no_space:
  assumes "\<forall>c \<in> set s. \<not> is_space c"
  shows "strip s = s"
proof -
  have l: "dropWhile is_space s = s"
    using assms by (rule dropWhile_none)
  have "\<forall>c \<in> set (rev s). \<not> is_space c" using assms by simp
  then have "dropWhile is_space (rev s) = rev s" by (rule dropWhile_none)
  then show ?thesis by (simp add: strip_def lstrip_def rstrip_def l)
qed

lemma hex_not_int_space: "is_hex c \<Longrightarrow> \<not> is_int_space c"
  by (auto simp: is_hex_def is_int_space_def Let_def)

lemma int_strip_no_space:
  assumes "\<forall>c \<in> set s. \<not> is_int_space c"
  shows "int_strip s = s"
proof -
  have l: "dropWhile is_int_space s = s"
    using assms by (rule dropWhile_none)
  have "\<forall>c \<in> set (rev s). \<not> is_int_space c" using assms by simp
  then have "dropWhile is_int_space (rev s) = rev s" by (rule dropWhile_none)
  then show ?thesis by (simp add: int_strip_def l)
qed

lemma digit_of_nonneg: "digit_of b c = Some d \<Longrightarrow> 0 \<le> d"
  by (auto simp: digit_of_def Let_def split: if_splits)

lemma digits_val_nonneg:
  "digits_val b cs us ok acc = Some n \<Longrightarrow> 0 \<le> b \<Longrightarrow> 0 \<le> acc \<Longrightarrow> 0 \<le> n"
proof (induction cs arbitrary: us ok acc)
  case Nil
  then show ?case by (simp split: if_splits)
next
  case (Cons c cs)
  show ?case
  proof (cases "c = CHR ''_''")
    case True
    with Cons show ?thesis by (simp split: if_splits)
  next
    case False
    with Cons.prems(1) obtain d where d: "digit_of b c = Some d"
      and r: "digits_val b cs True True (acc * b + d) = Some n"
      by (auto split: option.splits)
    have "0 \<le> acc * b + d"
      using digit_of_nonneg [OF d] Cons.prems(2,3) by simp
    from Cons.IH [OF r Cons.prems(2) this] show ?thesis .
  qed
qed

lemma unsigned_val_nonneg: "unsigned_val b s = Some n \<Longrightarrow> 0 \<le> b \<Longrightarrow> 0 \<le> n"
  by (auto simp: unsigned_val_def split: if_splits dest: digits_val_nonneg)

lemma limited_val_nonneg: "limited_val b s = Some n \<Longrightarrow> 0 \<le> b \<Longrightarrow> 0 \<le> n"
  by (auto simp: limited_val_def split: if_splits dest: unsigned_val_nonneg)

lemma py_int_hex_nonneg:
  assumes "py_int b g = Some n" and "\<forall>c \<in> set g. is_hex c" and "0 \<le> b"
  shows "0 \<le> n"
proof -
  have s: "int_strip g = g" using assms(2) hex_not_int_space by (intro int_strip_no_space) blast
  show ?thesis
  proof (cases g)
    case Nil
    with assms(1) s show ?thesis by (simp add: py_int_def)
  next
    case (Cons c cs)
    then have "is_hex c" using assms(2) by simp
    then have "c \<noteq> CHR ''-''" "c \<noteq> CHR ''+''" using hex_not_sign by blast+
    with assms(1) s Cons have "limited_val b g = Some n" by (simp add: py_int_def)
    then show ?thesis using assms(3) by (rule limited_val_nonneg)
  qed
qed

lemma match_range_line_groups:
  assumes "match_range_line l = Some (g1, g2, g3, g4, g5)"
  shows "(\<forall>c \<in> set g1. is_hex c) \<and> (\<forall>c \<in> set g2. is_hex c) \<and> (\<forall>c \<in> set g3. is_digit c)
         \<and> g5 \<noteq> [] \<and> (\<forall>c \<in> set g5. \<not> is_space c)"
  using assms
  by (auto simp: match_range_line_def Let_def split: if_splits dest: set_takeWhileD)

lemma strip_nonempty:
  assumes "c \<in> set s" and "\<not> is_space c"
  shows "strip s \<noteq> []"
proof -
  let ?d = "dropWhile is_space s"
  have ne: "?d \<noteq> []" using assms by (auto simp: dropWhile_eq_Nil_conv)
  then have "\<not> is_space (hd ?d)" by (rule hd_dropWhile)
  moreover have "hd ?d \<in> set (rev ?d)" using ne by simp
  ultimately have "dropWhile is_space (rev ?d) \<noteq> []"
    by (auto simp: dropWhile_eq_Nil_conv simp del: set_rev)
  then show ?thesis by (simp add: strip_def lstrip_def rstrip_def)
qed

lemma strip_one_space: "is_space c \<Longrightarrow> strip [c] = []"
  by (simp add: strip_def lstrip_def rstrip_def)

lemma takeWhile_Nil_dropWhile: "takeWhile P xs = [] \<Longrightarrow> dropWhile P xs = xs"
  by (cases xs) (auto split: if_splits)

lemma suffix_drop_dropWhile:
  "suffix (dropWhile P (drop n (dropWhile Q xs))) xs"
  by (meson suffix_drop suffix_dropWhile suffix_order.trans)

text \<open>
  The groups of a match, and the shape of the line around group 4: the comma, the
  whitespace after it, and either a first character that is no whitespace and no
  closing parenthesis, or the closing parenthesis at once.
\<close>

lemma match_range_line_kind:
  assumes "match_range_line l = Some (g1, g2, g3, g4, g5)"
  shows "(\<exists>c \<in> set g4. \<not> is_space c) \<or>
         (\<exists>c u w v. g4 = [c] \<and> is_space c \<and> l = u @ '','' @ w @ '')'' @ v \<and>
            2 \<le> length w \<and> list_all is_space w)"
proof -
  define l0 where "l0 = dropWhile is_space l"
  define l1 where "l1 = dropWhile is_hex l0"
  define l2 where "l2 = drop 1 l1"
  define l3 where "l3 = dropWhile is_hex l2"
  define l4 where "l4 = dropWhile is_space l3"
  define l5 where "l5 = drop 5 l4"
  define l6 where "l6 = dropWhile is_space l5"
  define l7 where "l7 = dropWhile is_digit l6"
  define l8 where "l8 = drop 1 l7"
  define w3 where "w3 = takeWhile is_space l8"
  define l9 where "l9 = dropWhile is_space l8"
  define r where "r = takeWhile (\<lambda>c. c \<noteq> CHR '')'') l9"
  define l10 where "l10 = dropWhile (\<lambda>c. c \<noteq> CHR '')'') l9"
  from assms have c7: "prefix '','' l7" and w3: "w3 \<noteq> []"
    and g4: "g4 = (if r \<noteq> [] then r else if 2 \<le> length w3 then [last w3] else [])"
    and g4ne: "g4 \<noteq> []" and c10: "prefix ''):'' l10"
    unfolding match_range_line_def l0_def l1_def l2_def l3_def l4_def l5_def l6_def l7_def
      l8_def w3_def l9_def r_def l10_def
    by (simp_all add: Let_def split: if_splits)
  show ?thesis
  proof (cases "r = []")
    case False
    then have "l9 \<noteq> []" by (auto simp: r_def)
    then have "\<not> is_space (hd l9)" unfolding l9_def by (rule hd_dropWhile)
    moreover have "hd l9 \<in> set r"
      using False \<open>l9 \<noteq> []\<close> unfolding r_def by (cases l9) (auto split: if_splits)
    ultimately show ?thesis using False g4 by auto
  next
    case True
    then have two: "2 \<le> length w3" and g: "g4 = [last w3]"
      using g4 g4ne by (simp_all split: if_splits)
    have sp: "list_all is_space w3"
      unfolding w3_def list_all_iff by (auto dest: set_takeWhileD)
    have "last w3 \<in> set w3" using w3 by simp
    then have ls: "is_space (last w3)" using sp by (simp add: list_all_iff)
    have "l10 = l9" using True unfolding r_def l10_def by (rule takeWhile_Nil_dropWhile)
    then obtain v where v: "l9 = '')'' @ v" using c10 by (auto simp: prefix_def)
    have "l8 = w3 @ l9" unfolding w3_def l9_def by simp
    then have l8: "l8 = w3 @ '')'' @ v" using v by simp
    have l7: "l7 = '','' @ l8" using c7 by (auto simp: prefix_def l8_def)
    have a: "suffix l1 l" unfolding l1_def l0_def
      by (meson suffix_dropWhile suffix_order.trans)
    have b: "suffix l4 l1" unfolding l4_def l3_def l2_def
      by (meson suffix_drop suffix_dropWhile suffix_order.trans)
    have c: "suffix l7 l4" unfolding l7_def l6_def l5_def
      by (meson suffix_drop suffix_dropWhile suffix_order.trans)
    have "suffix l7 l" using a b c by (meson suffix_order.trans)
    then obtain u where "l = u @ l7" by (auto simp: suffix_def)
    then have "l = u @ '','' @ w3 @ '')'' @ v" using l7 l8 by simp
    then show ?thesis using g ls two sp by blast
  qed
qed

lemma parse_io_line:
  "MemoryRange_parse ''  0000000000000000-000000000000ffff (prio 0, i/o): io'' =
     Inr \<lparr>mr_start = 0, mr_end = 0xffff, mr_priority = 0, mr_kind = ''i/o'', mr_name = ''io''\<rparr>"
  by code_simp

lemma parse_reversed_line:
  "MemoryRange_parse ''2-1 (prio 0,  ): x'' =
     Inr \<lparr>mr_start = 2, mr_end = 1, mr_priority = 0, mr_kind = [], mr_name = ''x''\<rparr>"
  by code_simp

lemma match_io_line:
  "match_range_line (strip ''  0000000000000000-000000000000ffff (prio 0, i/o): io'') =
     Some (''0000000000000000'', ''000000000000ffff'', ''0'', ''i/o'', ''io'')"
  by code_simp

text \<open>
  Claim C7 (as stated, it fails). \<open>MemoryRange.parse\<close> compares nothing: the line
  \<open>2-1 (prio 0,  ): x\<close> parses to a range with start 2 above end 1, and its kind is
  empty, because the pattern lets group 4 be one whitespace character, which
  \<open>strip\<close> then removes.
\<close>

theorem MemoryRange_parse_counterexample:
  "\<exists>r. MemoryRange_parse ''2-1 (prio 0,  ): x'' = Inr r \<and>
       \<not> mr_start r \<le> mr_end r \<and> mr_kind r = []"
  by (simp add: parse_reversed_line)

text \<open>
  Claim C7, amended. For every line that \<open>MemoryRange.parse\<close> accepts, the name is
  non-empty (and free of whitespace), and the kind is group 4 of the pattern,
  stripped. The kind is non-empty with one exception: it is empty exactly when group 4
  is a single whitespace character, and then the stripped line has a comma, two or
  more whitespace characters and the closing parenthesis in a row. Start, end and
  priority are not negative; the order of start and end is not checked.
\<close>

theorem MemoryRange_parse_fields:
  assumes "MemoryRange_parse line = Inr r"
  shows "mr_name r \<noteq> [] \<and> (\<forall>c \<in> set (mr_name r). \<not> is_space c) \<and>
         0 \<le> mr_start r \<and> 0 \<le> mr_end r \<and> 0 \<le> mr_priority r \<and>
         (\<exists>g1 g2 g3 g4 g5. match_range_line (strip line) = Some (g1, g2, g3, g4, g5) \<and>
            mr_kind r = strip g4 \<and> mr_name r = g5 \<and>
            (mr_kind r = [] \<longleftrightarrow> (\<exists>c. g4 = [c] \<and> is_space c))) \<and>
         (mr_kind r = [] \<longrightarrow>
            (\<exists>u w v. strip line = u @ '','' @ w @ '')'' @ v \<and> 2 \<le> length w \<and>
               list_all is_space w))"
proof -
  from assms obtain g1 g2 g3 g4 g5 s e p where
    m: "match_range_line (strip line) = Some (g1, g2, g3, g4, g5)"
    and s: "py_int 16 g1 = Some s" and e: "py_int 16 g2 = Some e" and p: "py_int 10 g3 = Some p"
    and r: "r = \<lparr>mr_start = s, mr_end = e, mr_priority = p, mr_kind = strip g4, mr_name = g5\<rparr>"
    by (auto simp: MemoryRange_parse_def split: option.splits)
  from match_range_line_groups [OF m]
  have h1: "\<forall>c \<in> set g1. is_hex c" and h2: "\<forall>c \<in> set g2. is_hex c"
    and h3: "\<forall>c \<in> set g3. is_digit c"
    and h5: "g5 \<noteq> []" "\<forall>c \<in> set g5. \<not> is_space c"
    by blast+
  have h3': "\<forall>c \<in> set g3. is_hex c" using h3 digit_is_hex by blast
  have n1: "0 \<le> s" using py_int_hex_nonneg [OF s h1] by simp
  have n2: "0 \<le> e" using py_int_hex_nonneg [OF e h2] by simp
  have n3: "0 \<le> p" using py_int_hex_nonneg [OF p h3'] by simp
  have k: "mr_kind r = strip g4" and nm: "mr_name r = g5" using r by simp_all
  have iff: "mr_kind r = [] \<longleftrightarrow> (\<exists>c. g4 = [c] \<and> is_space c)"
  proof
    assume "mr_kind r = []"
    then have "\<not> (\<exists>c \<in> set g4. \<not> is_space c)" using k strip_nonempty by metis
    with match_range_line_kind [OF m] show "\<exists>c. g4 = [c] \<and> is_space c" by blast
  next
    assume "\<exists>c. g4 = [c] \<and> is_space c"
    then show "mr_kind r = []" using k strip_one_space by auto
  qed
  have shape: "mr_kind r = [] \<longrightarrow>
      (\<exists>u w v. strip line = u @ '','' @ w @ '')'' @ v \<and> 2 \<le> length w \<and> list_all is_space w)"
  proof
    assume "mr_kind r = []"
    then have "\<not> (\<exists>c \<in> set g4. \<not> is_space c)" using k strip_nonempty by metis
    with match_range_line_kind [OF m]
    show "\<exists>u w v. strip line = u @ '','' @ w @ '')'' @ v \<and> 2 \<le> length w \<and> list_all is_space w"
      by blast
  qed
  have "\<exists>g1 g2 g3 g4 g5. match_range_line (strip line) = Some (g1, g2, g3, g4, g5) \<and>
            mr_kind r = strip g4 \<and> mr_name r = g5 \<and>
            (mr_kind r = [] \<longleftrightarrow> (\<exists>c. g4 = [c] \<and> is_space c))"
    using m k nm iff by blast
  then show ?thesis using h5 n1 n2 n3 r shape by simp
qed

theorem MemoryRange_parse_fields_witness:
  "\<exists>r. MemoryRange_parse ''  0000000000000000-000000000000ffff (prio 0, i/o): io'' = Inr r \<and>
       mr_name r = ''io'' \<and> mr_kind r = ''i/o'' \<and> mr_kind r \<noteq> [] \<and>
       0 \<le> mr_start r \<and> 0 \<le> mr_end r \<and> 0 \<le> mr_priority r"
  using MemoryRange_parse_fields [OF parse_io_line] parse_io_line by auto

section \<open>Properties of the memory bit flip\<close>

lemma from_bytes_bounds: "0 \<le> from_bytes bs \<and> from_bytes bs < 256 ^ length bs"
proof (induction bs)
  case Nil
  show ?case by simp
next
  case (Cons b bs)
  have "0 \<le> uint b" "uint b < 256"
    using uint_bounded [of b] by simp_all
  with Cons show ?case by simp
qed

lemma length_bytes_of: "length (bytes_of n k) = k"
  by (induction k arbitrary: n) simp_all

lemma bytes_of_from_bytes: "bytes_of (from_bytes bs) (length bs) = bs"
proof (induction bs)
  case Nil
  show ?case by simp
next
  case (Cons b bs)
  have lt: "uint b < 256" "0 \<le> uint b" using uint_bounded [of b] by simp_all
  have d: "(uint b + 256 * from_bytes bs) div 256 = from_bytes bs"
    using lt by simp
  have "(word_of_int (uint b + 256 * from_bytes bs) :: 8 word) = word_of_int (uint b)"
    unfolding word_of_int_eq_iff by (simp add: take_bit_eq_mod)
  then have h: "(word_of_int (uint b + 256 * from_bytes bs) :: 8 word) = b" by simp
  show ?case using Cons d h by simp
qed

lemma from_bytes_bytes_of:
  "0 \<le> n \<Longrightarrow> n < 256 ^ k \<Longrightarrow> from_bytes (bytes_of n k) = n"
proof (induction k arbitrary: n)
  case 0
  then show ?case by simp
next
  case (Suc k)
  have a: "0 \<le> n div 256" using Suc.prems(1) by simp
  have b: "n div 256 < 256 ^ k" using Suc.prems by (simp add: div_less_iff_less_mult algebra_simps)
  have u: "uint (word_of_int n :: 8 word) = n mod 256"
    by (simp add: uint_word_of_int)
  show ?case using Suc.IH [OF a b] u by simp
qed

lemma flip_bound:
  assumes "0 \<le> (v::int)" and "v < 256 ^ k" and "b < 8 * k"
  shows "0 \<le> v XOR push_bit b 1 \<and> v XOR push_bit b 1 < 256 ^ k"
proof -
  have p: "(256::int) ^ k = 2 ^ (8 * k)" by (simp add: power_mult)
  have m: "(push_bit b 1 :: int) < 2 ^ (8 * k)"
    using assms(3) by (simp add: push_bit_eq_mult)
  have m0: "0 \<le> (push_bit b 1 :: int)" by simp
  have "v XOR push_bit b 1 < 2 ^ (8 * k)"
    using assms(1,2) m p by (intro XOR_upper) simp_all
  moreover have "0 \<le> v XOR push_bit b 1" using assms(1) m0 by simp
  ultimately show ?thesis using p by simp
qed

lemma flip_changes: "(v::int) XOR push_bit b 1 \<noteq> v"
proof
  assume "v XOR push_bit b 1 = v"
  then have "(v XOR push_bit b 1) XOR v = v XOR v" by simp
  then have "(push_bit b 1 :: int) = 0" by (simp add: ac_simps)
  then show False by simp
qed

lemma flip_twice: "((v::int) XOR m) XOR m = v"
  by (simp add: xor.assoc)

lemma length_bytes_at: "length (bytes_at w a k) = k"
  by (simp add: bytes_at_def)

lemma read_after_write:
  assumes "\<forall>x. a \<le> x \<and> x < a + int (length bs) \<longrightarrow> mapped w x \<and> writable w x"
  shows "fst (write_memory a bs w) = Inr () \<and>
         bytes_at (snd (write_memory a bs w)) a (length bs) = bs"
proof -
  have mp: "\<forall>i \<in> set [0..<length bs]. mapped w (a + int i)" using assms by simp
  have "bytes_at (snd (write_memory a bs w)) a (length bs) = bs"
  proof (rule nth_equalityI)
    show "length (bytes_at (snd (write_memory a bs w)) a (length bs)) = length bs"
      by (simp add: bytes_at_def)
  next
    fix i assume "i < length (bytes_at (snd (write_memory a bs w)) a (length bs))"
    then have i: "i < length bs" by (simp add: bytes_at_def)
    then have "writable w (a + int i)" using assms by simp
    with i mp show "bytes_at (snd (write_memory a bs w)) a (length bs) ! i = bs ! i"
      by (simp add: bytes_at_def write_memory_def)
  qed
  then show ?thesis using mp by (simp add: write_memory_def)
qed

lemma log_single_cases:
  "\<exists>r w2. log_single t ov nv w = (r, w2) \<and> memory w2 = memory w \<and> mapped w2 = mapped w \<and>
     writable w2 = writable w \<and> logger w2 = logger w \<and> csv_ok w2 = csv_ok w \<and>
     (r = Inr () \<or> r = Inl OSError) \<and> (logger w = None \<or> csv_ok w \<longrightarrow> r = Inr ())"
  by (cases "logger w") (auto simp: log_single_def emit_def print_p_def raise_p_def)

lemma inject_bitflip_effect:
  assumes bw: "1 \<le> bw" and b: "0 \<le> b" "b < 8 * bw"
    and wr: "\<forall>x. a \<le> x \<and> x < a + bw \<longrightarrow> mapped w x \<and> writable w x"
  defines "ovalue \<equiv> from_bytes (bytes_at w a (nat bw))"
  defines "nvalue \<equiv> ovalue XOR push_bit (nat b) 1"
  shows "\<exists>r w1. inject_bitflip a bw (Some b) w = (r, w1) \<and>
           (r = Inr () \<or> r = Inl OSError) \<and> (logger w = None \<or> csv_ok w \<longrightarrow> r = Inr ()) \<and>
           mapped w1 = mapped w \<and> writable w1 = writable w \<and>
           logger w1 = logger w \<and> csv_ok w1 = csv_ok w \<and>
           bytes_at w1 a (nat bw) = bytes_of nvalue (nat bw) \<and>
           (\<forall>x. \<not> (a \<le> x \<and> x < a + bw) \<longrightarrow> memory w1 x = memory w x)"
proof -
  let ?k = "nat bw"
  have ob: "0 \<le> ovalue" "ovalue < 256 ^ ?k"
    using from_bytes_bounds [of "bytes_at w a ?k"] by (simp_all add: ovalue_def length_bytes_at)
  have bk: "nat b < 8 * ?k" using b bw by simp
  have nb: "0 \<le> nvalue" "nvalue < 256 ^ ?k"
    using flip_bound [OF ob bk] by (simp_all add: nvalue_def)
  have ne: "nvalue \<noteq> ovalue" unfolding nvalue_def by (rule flip_changes)
  let ?nbytes = "bytes_of nvalue ?k"
  have len: "length ?nbytes = ?k" by (rule length_bytes_of)
  have tb: "to_bytes nvalue ?k = Inr ?nbytes" using nb by (simp add: to_bytes_def)
  have sh: "shift_one b = Inr (push_bit (nat b) 1)" using b by (simp add: shift_one_def)
  define w1 where "w1 = snd (write_memory a ?nbytes w)"
  have wr': "\<forall>x. a \<le> x \<and> x < a + int (length ?nbytes) \<longrightarrow> mapped w x \<and> writable w x"
    using wr bw by (simp add: len)
  have mp: "\<forall>i \<in> set [0..<?k]. mapped w (a + int i)" using wr bw by simp
  have rd: "read_memory a ?k w = (Inr (bytes_at w a ?k), w)"
    using mp by (simp add: read_memory_def bytes_at_def)
  have rb: "bytes_at w1 a ?k = ?nbytes"
    using read_after_write [OF wr'] by (simp add: len w1_def)
  have wm: "write_memory a ?nbytes w = (Inr (), w1)"
    using read_after_write [OF wr'] by (simp add: w1_def prod_eq_iff)
  have same: "mapped w1 = mapped w" "writable w1 = writable w" "logger w1 = logger w"
    "csv_ok w1 = csv_ok w"
    using mp by (simp_all add: w1_def write_memory_def len)
  have mp1: "\<forall>i \<in> set [0..<?k]. mapped w1 (a + int i)" using mp same by simp
  have rd1: "read_memory a ?k w1 = (Inr ?nbytes, w1)"
    using mp1 rb by (simp add: read_memory_def bytes_at_def)
  have rdb: "from_bytes ?nbytes = nvalue" using from_bytes_bytes_of [OF nb] .
  from log_single_cases [of "Address a" ovalue nvalue w1]
  obtain r w2 where lg: "log_single (Address a) ovalue nvalue w1 = (r, w2)"
    and w2: "memory w2 = memory w1" "mapped w2 = mapped w1" "writable w2 = writable w1"
      "logger w2 = logger w1" "csv_ok w2 = csv_ok w1"
    and r: "r = Inr () \<or> r = Inl OSError" "logger w1 = None \<or> csv_ok w1 \<longrightarrow> r = Inr ()"
    by blast
  have run: "inject_bitflip a bw (Some b) w = (r, w2)"
    using bw sh tb wm rd rd1 rdb ne lg unfolding ovalue_def nvalue_def
    by (simp add: inject_bitflip_def bind_p_def seq_p_def unit_p_def of_result_def
        Let_def raise_p_def)
  have "bytes_at w2 a ?k = ?nbytes" using rb w2(1) by (simp add: bytes_at_def)
  moreover have "\<forall>x. \<not> (a \<le> x \<and> x < a + bw) \<longrightarrow> memory w2 x = memory w x"
    using w2(1) bw mp by (auto simp: write_memory_def len w1_def)
  ultimately show ?thesis using run r w2 same by auto
qed

lemma memory_eq_from_bytes_at:
  assumes "bytes_at w2 a k = bytes_at w a k"
    and "\<forall>x. \<not> (a \<le> x \<and> x < a + int k) \<longrightarrow> memory w2 x = memory w x"
  shows "memory w2 = memory w"
proof
  fix x
  show "memory w2 x = memory w x"
  proof (cases "a \<le> x \<and> x < a + int k")
    case False
    with assms(2) show ?thesis by simp
  next
    case True
    then have i: "nat (x - a) < k" by auto
    have "bytes_at w2 a k ! nat (x - a) = bytes_at w a k ! nat (x - a)" using assms(1) by simp
    with i True show ?thesis by (simp add: bytes_at_def)
  qed
qed

lemma not_bit_small:
  assumes "0 \<le> (v::int)" and "v < 2 ^ b"
  shows "\<not> bit v b"
  using assms by (simp add: bit_iff_odd)

lemma xor_bit_above:
  assumes "0 \<le> (v::int)" and "v < 2 ^ n" and "n \<le> b"
  shows "2 ^ n \<le> v XOR push_bit b 1"
proof -
  have le: "(2::int) ^ n \<le> 2 ^ b" using assms(3) by simp
  have vb: "v < 2 ^ b" using assms(2) le by (rule less_le_trans)
  have nb: "\<not> bit v b" using assms(1) vb by (rule not_bit_small)
  let ?x = "v XOR push_bit b 1"
  have nn: "0 \<le> ?x" using assms(1) by simp
  have "bit ?x b" using nb by (simp add: bit_xor_iff bit_exp_iff)
  then have "\<not> ?x < 2 ^ b" using nn not_bit_small by blast
  then have "2 ^ b \<le> ?x" by simp
  with le show ?thesis by (rule order_trans)
qed

lemma inject_bitflip_bit_too_large:
  assumes "1 \<le> bw" and "8 * bw \<le> b"
    and "\<forall>x. a \<le> x \<and> x < a + bw \<longrightarrow> mapped w x"
  shows "inject_bitflip a bw (Some b) w = (Inl OverflowError, w)"
proof -
  let ?k = "nat bw"
  let ?o = "from_bytes (map (\<lambda>i. memory w (a + int i)) [0..<?k])"
  have mp: "\<forall>i \<in> set [0..<?k]. mapped w (a + int i)" using assms(1,3) by simp
  have ob: "0 \<le> ?o" "?o < 2 ^ (8 * ?k)"
    using from_bytes_bounds [of "map (\<lambda>i. memory w (a + int i)) [0..<?k]"]
    by (simp_all add: power_mult)
  have nb: "8 * ?k \<le> nat b" using assms(1,2) by simp
  have "2 ^ (8 * ?k) \<le> ?o XOR push_bit (nat b) 1"
    using ob nb by (rule xor_bit_above)
  then have big: "256 ^ ?k \<le> ?o XOR push_bit (nat b) 1" by (simp add: power_mult)
  have b0: "0 \<le> b" using assms(1,2) by simp
  show ?thesis
    using assms(1) mp big b0
    by (simp add: inject_bitflip_def bind_p_def unit_p_def read_memory_def of_result_def
        shift_one_def to_bytes_def Let_def)
qed

lemma inject_bitflip_bit_negative:
  assumes "1 \<le> bw" and "b < 0"
    and "\<forall>x. a \<le> x \<and> x < a + bw \<longrightarrow> mapped w x"
  shows "inject_bitflip a bw (Some b) w = (Inl ValueError, w)"
proof -
  have mp: "\<forall>i \<in> set [0..<nat bw]. mapped w (a + int i)" using assms(1,3) by simp
  show ?thesis
    using assms(1,2) mp
    by (simp add: inject_bitflip_def bind_p_def unit_p_def read_memory_def of_result_def
        shift_one_def Let_def)
qed

lemma inject_bitflip_twice_nonneg:
  assumes "1 \<le> bw" and "0 \<le> b" and "b < 8 * bw"
    and "\<forall>x. a \<le> x \<and> x < a + bw \<longrightarrow> mapped w x \<and> writable w x"
  shows "\<exists>r1 w1 r2 w2.
           inject_bitflip a bw (Some b) w = (r1, w1) \<and>
           inject_bitflip a bw (Some b) w1 = (r2, w2) \<and>
           bytes_at w1 a (nat bw) =
             bytes_of (from_bytes (bytes_at w a (nat bw)) XOR push_bit (nat b) 1) (nat bw) \<and>
           bytes_at w1 a (nat bw) \<noteq> bytes_at w a (nat bw) \<and>
           bytes_at w2 a (nat bw) = bytes_at w a (nat bw) \<and>
           memory w2 = memory w \<and>
           (r1 = Inr () \<or> r1 = Inl OSError) \<and> (r2 = Inr () \<or> r2 = Inl OSError) \<and>
           (logger w = None \<or> csv_ok w \<longrightarrow> r1 = Inr () \<and> r2 = Inr ())"
proof -
  let ?k = "nat bw"
  let ?o = "from_bytes (bytes_at w a ?k)"
  let ?n = "?o XOR push_bit (nat b) 1"
  from inject_bitflip_effect [OF assms] obtain r1 w1 where
    r1: "inject_bitflip a bw (Some b) w = (r1, w1)"
    and e1: "r1 = Inr () \<or> r1 = Inl OSError" "logger w = None \<or> csv_ok w \<longrightarrow> r1 = Inr ()"
    and s1: "mapped w1 = mapped w" "writable w1 = writable w" "logger w1 = logger w"
      "csv_ok w1 = csv_ok w"
    and m1: "bytes_at w1 a ?k = bytes_of ?n ?k"
    and o1: "\<forall>x. \<not> (a \<le> x \<and> x < a + bw) \<longrightarrow> memory w1 x = memory w x"
    by blast
  have wr: "\<forall>x. a \<le> x \<and> x < a + bw \<longrightarrow> mapped w1 x \<and> writable w1 x"
    using assms(4) s1 by simp
  from inject_bitflip_effect [OF assms(1,2,3) wr] obtain r2 w2 where
    r2: "inject_bitflip a bw (Some b) w1 = (r2, w2)"
    and e2: "r2 = Inr () \<or> r2 = Inl OSError" "logger w1 = None \<or> csv_ok w1 \<longrightarrow> r2 = Inr ()"
    and m2: "bytes_at w2 a ?k = bytes_of (from_bytes (bytes_at w1 a ?k) XOR push_bit (nat b) 1) ?k"
    and o2: "\<forall>x. \<not> (a \<le> x \<and> x < a + bw) \<longrightarrow> memory w2 x = memory w1 x"
    by blast
  have ob: "0 \<le> ?o" "?o < 256 ^ ?k"
    using from_bytes_bounds [of "bytes_at w a ?k"] by (simp_all add: length_bytes_at)
  have bk: "nat b < 8 * ?k" using assms(1,2,3) by simp
  have nb: "0 \<le> ?n" "?n < 256 ^ ?k" using flip_bound [OF ob bk] by simp_all
  have fn: "from_bytes (bytes_at w1 a ?k) = ?n"
    using m1 from_bytes_bytes_of [OF nb] by simp
  then have "bytes_at w2 a ?k = bytes_of ?o ?k"
    using m2 by (simp add: flip_twice)
  also have "\<dots> = bytes_at w a ?k"
    using bytes_of_from_bytes [of "bytes_at w a ?k"] by (simp add: length_bytes_at)
  finally have inside: "bytes_at w2 a ?k = bytes_at w a ?k" .
  have outside: "\<forall>x. \<not> (a \<le> x \<and> x < a + int ?k) \<longrightarrow> memory w2 x = memory w x"
    using o1 o2 assms(1) by simp
  have mem: "memory w2 = memory w" using inside outside by (rule memory_eq_from_bytes_at)
  have "?n \<noteq> ?o" by (rule flip_changes)
  then have diff: "bytes_at w1 a ?k \<noteq> bytes_at w a ?k" using fn by metis
  have ok: "logger w = None \<or> csv_ok w \<longrightarrow> r1 = Inr () \<and> r2 = Inr ()"
    using e1(2) e2(2) s1 by simp
  show ?thesis using r1 r2 m1 diff inside mem e1(1) e2(1) ok by blast
qed

text \<open>
  Claim C5. Let the \<open>w\<close> bytes at address \<open>a\<close> be mapped and accept writes (reads return
  the last value written), \<open>w \<ge> 1\<close> and \<open>b < 8 w\<close>. Two calls of \<open>inject_bitflip(a, w, b)\<close>
  in succession leave the \<open>w\<close> bytes at \<open>a\<close>, and the whole memory, as they were. For
  \<open>b \<ge> 0\<close> the first call leaves there the little-endian bytes of the old value XOR
  \<open>1 << b\<close>, which differ from the old bytes, and the second call restores them; both
  calls return normally, unless the logger cannot append to its CSV file: then a
  call raises OSError after its write, which changes nothing about the memory. For
  \<open>b < 0\<close> both calls raise ValueError before they write.
\<close>

theorem inject_bitflip_twice_restores:
  assumes "1 \<le> bw" and "b < 8 * bw"
    and "\<forall>x. a \<le> x \<and> x < a + bw \<longrightarrow> mapped w x \<and> writable w x"
  shows "\<exists>r1 w1 r2 w2.
           inject_bitflip a bw (Some b) w = (r1, w1) \<and>
           inject_bitflip a bw (Some b) w1 = (r2, w2) \<and>
           bytes_at w2 a (nat bw) = bytes_at w a (nat bw) \<and>
           memory w2 = memory w \<and>
           (0 \<le> b \<longrightarrow>
              bytes_at w1 a (nat bw) =
                bytes_of (from_bytes (bytes_at w a (nat bw)) XOR push_bit (nat b) 1) (nat bw) \<and>
              bytes_at w1 a (nat bw) \<noteq> bytes_at w a (nat bw) \<and>
              (r1 = Inr () \<or> r1 = Inl OSError) \<and> (r2 = Inr () \<or> r2 = Inl OSError) \<and>
              (logger w = None \<or> csv_ok w \<longrightarrow> r1 = Inr () \<and> r2 = Inr ())) \<and>
           (b < 0 \<longrightarrow> r1 = Inl ValueError \<and> r2 = Inl ValueError \<and> w1 = w \<and> w2 = w)"
proof (cases "0 \<le> b")
  case True
  from inject_bitflip_twice_nonneg [OF assms(1) True assms(2,3)] True
  show ?thesis by force
next
  case False
  then have neg: "b < 0" by simp
  have mp: "\<forall>x. a \<le> x \<and> x < a + bw \<longrightarrow> mapped w x" using assms(3) by simp
  have "inject_bitflip a bw (Some b) w = (Inl ValueError, w)"
    using assms(1) neg mp by (rule inject_bitflip_bit_negative)
  with neg show ?thesis by auto
qed

theorem inject_bitflip_twice_restores_witness:
  "\<exists>w1 w2. inject_bitflip 0x1000 4 (Some 0) example_world = (Inr (), w1) \<and>
           inject_bitflip 0x1000 4 (Some 0) w1 = (Inr (), w2) \<and>
           bytes_at example_world 0x1000 4 = [0xEF, 0xBE, 0xAD, 0xDE] \<and>
           bytes_at w1 0x1000 4 = [0xEE, 0xBE, 0xAD, 0xDE] \<and>
           memory w2 = memory example_world"
proof -
  have h: "\<forall>x. 0x1000 \<le> x \<and> x < 0x1000 + 4 \<longrightarrow> mapped example_world x \<and> writable example_world x"
    by (simp add: example_world_def)
  have l: "logger example_world = None" by (simp add: example_world_def)
  have b: "bytes_at example_world 0x1000 4 = [0xEF, 0xBE, 0xAD, 0xDE]"
    by code_simp
  have f: "bytes_of 3735928558 4 = [0xEE, 0xBE, 0xAD, 0xDE]"
    by code_simp
  from inject_bitflip_twice_restores [of 4 0 "0x1000" example_world, OF _ _ h]
  show ?thesis using l b f by auto
qed

section \<open>Properties of the register bit flip\<close>

lemma flip_cells_scalar:
  assumes "map_of (registers w) n = Some r"
    and "reg_type r \<noteq> ''union aarch64v''" and "reg_sizeof r = 8" and "0 \<le> b"
    and "reg_reaction r (reg_cells r 0) (reg_cells r 0 XOR push_bit (nat b) 1) = Some rr"
  shows "flip_cells (Some n) r b w =
           (Inr (reg_cells r 0, reg_cells r 0 XOR push_bit (nat b) 1, rr),
            w\<lparr>registers := AList.update n (r\<lparr>reg_cells := (reg_cells r)(0 := rr)\<rparr>) (registers w)\<rparr>)"
  using assms
  by (simp add: flip_cells_def bind_p_def seq_p_def unit_p_def of_result_def shift_one_def
      set_cell_def read_register_def str_of_def Let_def update_conv)

lemma inject_register_bitflip_cases:
  assumes r: "map_of (registers w) n = Some r" and sz: "0 \<le> reg_sizeof r"
    and fc: "flip_cells (Some n) r b w = (Inr (oldval, newval, rrval), w1)"
  shows "inject_register_bitflip (Some n) (Some b) w =
     (let bitmask = push_bit (nat (min (8 * reg_sizeof r) 64)) 1 - 1 in
      if newval AND bitmask = rrval AND bitmask then
        (case log_single (Register n) oldval rrval w1 of
           (Inr u, w2) \<Rightarrow> (Inr (Some True), w2)
         | (Inl e, w2) \<Rightarrow>
             if e = SystemExit then (Inl e, w2)
             else (Inr None, w2\<lparr>trace := trace w2 @ [Printed (RegisterFlipException e)]\<rparr>))
      else if oldval AND bitmask = rrval AND bitmask then
        (Inr (Some False), w1\<lparr>trace := trace w1 @ [Printed (RegisterFlipIgnored n oldval newval)]\<rparr>)
      else
        (Inr None, w1\<lparr>trace := trace w1 @ [Printed (RegisterFlipException RuntimeError)]\<rparr>))"
proof -
  have rd: "read_register (Some n) w = (Inr r, w)" using r by (simp add: read_register_def)
  have sh: "shift_one (min (8 * reg_sizeof r) 64) = Inr (push_bit (nat (min (8 * reg_sizeof r) 64)) 1)"
    using sz by (simp add: shift_one_def)
  show ?thesis
    unfolding inject_register_bitflip_def
    using rd sh fc
    by (auto simp: bind_p_def try_p_def seq_p_def unit_p_def of_result_def raise_p_def
        print_p_def emit_def is_Exception_def str_of_def Let_def split: prod.splits sum.splits)
qed

text \<open>
  Claim C3 (the code departs from it). Take a register \<open>n\<close> of eight bytes that is no
  vector, so that the bit count is 64 and the mask \<open>2^64 - 1\<close>; let the flip of bit
  \<open>b\<close> write \<open>new = old XOR (1 << b)\<close> over \<open>old\<close> and let the register read back \<open>rr\<close>.
  When the masked read-back equals the masked new value, one record is logged and
  the result is \<open>True\<close>; when it equals the masked old value, the result is \<open>False\<close>
  with a printed notice and no record. In every other case the RuntimeError that the
  function raises is caught by its own \<open>except Exception\<close>: the exception is printed,
  the function returns \<open>None\<close>, and the loop of \<open>inject_reg_internal\<close> goes on to the
  next register, exactly as after \<open>False\<close>. There is no hard failure.
\<close>

theorem inject_register_bitflip_outcomes:
  assumes "map_of (registers w) n = Some r"
    and "reg_type r \<noteq> ''union aarch64v''" and "reg_sizeof r = 8" and "0 \<le> b"
    and "reg_reaction r (reg_cells r 0) (reg_cells r 0 XOR push_bit (nat b) 1) = Some rr"
  shows "let old = reg_cells r 0;
             new = old XOR push_bit (nat b) 1;
             mask = 2 ^ 64 - 1;
             w1 = w\<lparr>registers :=
                    AList.update n (r\<lparr>reg_cells := (reg_cells r)(0 := rr)\<rparr>) (registers w)\<rparr>
         in
         (new AND mask = rr AND mask \<and> logger w = None \<longrightarrow>
            inject_register_bitflip (Some n) (Some b) w =
              (Inr (Some True),
               w1\<lparr>trace := trace w @ [Printed (InjectedBitflip (Register n) old rr)]\<rparr>)) \<and>
         (new AND mask = rr AND mask \<and> logger w = Some f \<and> csv_ok w \<longrightarrow>
            inject_register_bitflip (Some n) (Some b) w =
              (Inr (Some True), w1\<lparr>trace := trace w @ [CsvRow f (Register n) old rr]\<rparr>)) \<and>
         (new AND mask \<noteq> rr AND mask \<and> old AND mask = rr AND mask \<longrightarrow>
            inject_register_bitflip (Some n) (Some b) w =
              (Inr (Some False),
               w1\<lparr>trace := trace w @ [Printed (RegisterFlipIgnored n old new)]\<rparr>)) \<and>
         (new AND mask \<noteq> rr AND mask \<and> old AND mask \<noteq> rr AND mask \<longrightarrow>
            inject_register_bitflip (Some n) (Some b) w =
              (Inr None, w1\<lparr>trace := trace w @ [Printed (RegisterFlipException RuntimeError)]\<rparr>) \<and>
            try_registers (n # regs) (Some b) w =
              try_registers regs (Some b)
                (w1\<lparr>trace := trace w @ [Printed (RegisterFlipException RuntimeError),
                                         Printed TryingAnotherRegister]\<rparr>))"
proof -
  define old where "old = reg_cells r 0"
  define new where "new = old XOR push_bit (nat b) 1"
  define w1 where "w1 = w\<lparr>registers :=
      AList.update n (r\<lparr>reg_cells := (reg_cells r)(0 := rr)\<rparr>) (registers w)\<rparr>"
  have fc: "flip_cells (Some n) r b w = (Inr (old, new, rr), w1)"
    unfolding old_def new_def w1_def by (rule flip_cells_scalar [OF assms])
  have sz: "0 \<le> reg_sizeof r" using assms(3) by simp
  have m: "push_bit (nat (min (8 * reg_sizeof r) 64)) 1 - 1 = (2 ^ 64 - 1 :: int)"
    using assms(3) by simp
  note c = inject_register_bitflip_cases [OF assms(1) sz fc, unfolded m Let_def]
  have t1: "trace w1 = trace w" and l1: "logger w1 = logger w" and c1: "csv_ok w1 = csv_ok w"
    by (simp_all add: w1_def)
  have a: "new AND (2 ^ 64 - 1) = rr AND (2 ^ 64 - 1) \<and> logger w = None \<longrightarrow>
      inject_register_bitflip (Some n) (Some b) w =
        (Inr (Some True), w1\<lparr>trace := trace w @ [Printed (InjectedBitflip (Register n) old rr)]\<rparr>)"
    using c t1 l1 by (simp add: log_single_def print_p_def emit_def)
  have b: "new AND (2 ^ 64 - 1) = rr AND (2 ^ 64 - 1) \<and> logger w = Some f \<and> csv_ok w \<longrightarrow>
      inject_register_bitflip (Some n) (Some b) w =
        (Inr (Some True), w1\<lparr>trace := trace w @ [CsvRow f (Register n) old rr]\<rparr>)"
    using c t1 l1 c1 by (simp add: log_single_def emit_def)
  have d: "new AND (2 ^ 64 - 1) \<noteq> rr AND (2 ^ 64 - 1) \<and> old AND (2 ^ 64 - 1) = rr AND (2 ^ 64 - 1) \<longrightarrow>
      inject_register_bitflip (Some n) (Some b) w =
        (Inr (Some False), w1\<lparr>trace := trace w @ [Printed (RegisterFlipIgnored n old new)]\<rparr>)"
    using c t1 by simp
  have e: "new AND (2 ^ 64 - 1) \<noteq> rr AND (2 ^ 64 - 1) \<and> old AND (2 ^ 64 - 1) \<noteq> rr AND (2 ^ 64 - 1) \<longrightarrow>
      inject_register_bitflip (Some n) (Some b) w =
        (Inr None, w1\<lparr>trace := trace w @ [Printed (RegisterFlipException RuntimeError)]\<rparr>)"
    using c t1 by simp
  have g: "new AND (2 ^ 64 - 1) \<noteq> rr AND (2 ^ 64 - 1) \<and> old AND (2 ^ 64 - 1) \<noteq> rr AND (2 ^ 64 - 1) \<longrightarrow>
      try_registers (n # regs) (Some b) w =
        try_registers regs (Some b)
          (w1\<lparr>trace := trace w @ [Printed (RegisterFlipException RuntimeError),
                                   Printed TryingAnotherRegister]\<rparr>)"
    using e by (auto simp: bind_p_def seq_p_def print_p_def emit_def)
  show ?thesis
    unfolding Let_def old_def [symmetric] new_def [symmetric] w1_def [symmetric]
    using a b d e g by blast
qed

theorem inject_register_bitflip_outcomes_witness:
  "fst (inject_register_bitflip (Some ''x2'') (Some 0) example_world) = Inr None \<and>
   trace (snd (inject_register_bitflip (Some ''x2'') (Some 0) example_world)) =
     [Printed (RegisterFlipException RuntimeError)] \<and>
   fst (inject_register_bitflip (Some ''x0'') (Some 0) example_world) = Inr (Some True) \<and>
   trace (snd (inject_register_bitflip (Some ''x0'') (Some 0) example_world)) =
     [Printed (InjectedBitflip (Register ''x0'') 5 4)] \<and>
   fst (inject_register_bitflip (Some ''x1'') (Some 0) example_world) = Inr (Some False) \<and>
   trace (snd (inject_register_bitflip (Some ''x1'') (Some 0) example_world)) =
     [Printed (RegisterFlipIgnored ''x1'' 5 4)] \<and>
   trace (snd (try_registers [''x2'', ''x0''] (Some 0) example_world)) =
     [Printed (RegisterFlipException RuntimeError), Printed TryingAnotherRegister,
      Printed (InjectedBitflip (Register ''x0'') 5 4)]"
proof -
  define r2 where "r2 = \<lparr>reg_type = ''long'', reg_sizeof = 8, reg_cells = (\<lambda>i. 5 :: int),
      reg_reaction = (\<lambda>old v. Some (v + 2 :: int))\<rparr>"
  have h1: "map_of (registers example_world) ''x2'' = Some r2"
    by (simp add: example_world_def example_registers_def r2_def)
  have h2: "reg_type r2 \<noteq> ''union aarch64v''" by (simp add: r2_def)
  have h3: "reg_sizeof r2 = 8" by (simp add: r2_def)
  have h4: "(0::int) \<le> 0" by simp
  have h5: "reg_reaction r2 (reg_cells r2 0) (reg_cells r2 0 XOR push_bit (nat 0) 1) = Some 6"
    by (simp add: r2_def)
  have n1: "(5 XOR 1 :: int) = 4" by simp
  have n2: "(4 :: int) AND (2 ^ 64 - 1) \<noteq> 6 AND (2 ^ 64 - 1)" by simp
  have n3: "(5 :: int) AND (2 ^ 64 - 1) \<noteq> 6 AND (2 ^ 64 - 1)" by simp
  have o: "reg_cells r2 0 = 5" by (simp add: r2_def)
  from inject_register_bitflip_outcomes [OF h1 h2 h3 h4 h5, of "''log.csv''" "[''x0'']"]
  have "inject_register_bitflip (Some ''x2'') (Some 0) example_world =
      (Inr None,
       example_world\<lparr>registers :=
           AList.update ''x2'' (r2\<lparr>reg_cells := (reg_cells r2)(0 := 6)\<rparr>) (registers example_world),
         trace := trace example_world @ [Printed (RegisterFlipException RuntimeError)]\<rparr>)"
    using n2 n3 by (simp add: Let_def o n1)
  then have c: "fst (inject_register_bitflip (Some ''x2'') (Some 0) example_world) = Inr None \<and>
      trace (snd (inject_register_bitflip (Some ''x2'') (Some 0) example_world)) =
        [Printed (RegisterFlipException RuntimeError)]"
    by (simp add: example_world_def)
  have rest: "fst (inject_register_bitflip (Some ''x0'') (Some 0) example_world) = Inr (Some True) \<and>
     trace (snd (inject_register_bitflip (Some ''x0'') (Some 0) example_world)) =
       [Printed (InjectedBitflip (Register ''x0'') 5 4)] \<and>
     fst (inject_register_bitflip (Some ''x1'') (Some 0) example_world) = Inr (Some False) \<and>
     trace (snd (inject_register_bitflip (Some ''x1'') (Some 0) example_world)) =
       [Printed (RegisterFlipIgnored ''x1'' 5 4)] \<and>
     trace (snd (try_registers [''x2'', ''x0''] (Some 0) example_world)) =
       [Printed (RegisterFlipException RuntimeError), Printed TryingAnotherRegister,
        Printed (InjectedBitflip (Register ''x0'') 5 4)]"
    by code_simp
  show ?thesis using c rest by simp
qed

section \<open>Properties of the argument parser and of the checks of the commands\<close>

lemma parse_time_loop_error: "parse_time_loop us s = Inl e \<Longrightarrow> e = ValueError"
  by (induction us s rule: parse_time_loop.induct) (auto split: if_splits option.splits)

lemma parse_time_error: "parse_time s = Inl e \<Longrightarrow> e = ValueError"
  unfolding parse_time_def by (rule parse_time_loop_error)

lemma parse_time_loop_positive:
  "parse_time_loop us s = Inr n \<Longrightarrow> \<forall>p \<in> set us. 0 < snd p \<Longrightarrow> 0 < n"
  by (induction us s rule: parse_time_loop.induct) (auto split: if_splits option.splits)

lemma parse_time_positive:
  assumes "parse_time s = Inr n"
  shows "0 < n"
proof -
  have "\<forall>p \<in> set (sort_key fst time_units). 0 < snd p"
    by (simp add: time_units_def)
  with assms show ?thesis unfolding parse_time_def by (rule parse_time_loop_positive)
qed

lemma parse_args_safely_split_error:
  "parse_args_safely SplitError w = (Inr None, printed w [ErrorParsingArguments])"
  by (simp add: parse_args_safely_def try_p_def raise_p_def is_Exception_def seq_p_def bind_p_def
      print_p_def emit_def unit_p_def printed_def)

lemma parse_args_safely_raised:
  "parse_args_safely (Run err (Inl e)) w =
     (Inr None,
      printed w ((if err = [] then [] else [ParserOutput (strip err)]) @
                 (if e = SystemExit then [] else [ErrorParsingArguments])))"
  by (simp add: parse_args_safely_def try_p_def finally_p_def raise_p_def is_Exception_def
      seq_p_def bind_p_def of_result_def print_p_def emit_def unit_p_def printed_def)

lemma parse_args_safely_parsed:
  "parse_args_safely (Run err (Inr ns)) w =
     (Inr (Some ns), printed w (if err = [] then [] else [ParserOutput (strip err)]))"
  by (simp add: parse_args_safely_def try_p_def finally_p_def raise_p_def is_Exception_def
      seq_p_def bind_p_def of_result_def print_p_def emit_def unit_p_def printed_def)

lemma printed_Nil: "printed w [] = w"
  by (simp add: printed_def)

lemma handlers_return_on_None:
  assumes "parse_args_safely args1 w = (Inr None, w1)"
    and "parse_args_safely args2 w = (Inr None, w2)"
    and "parse_args_safely args3 w = (Inr None, w3)"
  shows "inject args1 w = (Inr (), w1)" and "autoinject args2 w = (Inr (), w2)"
    and "snapinject args3 w = (Inr (), w3)"
  using assms by (simp_all add: inject_def autoinject_def snapinject_def bind_p_def unit_p_def)

lemma check_intervals_cases:
  "check_intervals t mi ma w =
     (if t < 1 then (Inl AssertionError, w)
      else case parse_time mi of
             Inl e \<Rightarrow> (Inl ValueError, w)
           | Inr mint \<Rightarrow>
               (case parse_time ma of
                  Inl e \<Rightarrow> (Inl ValueError, w)
                | Inr maxt \<Rightarrow>
                    if 0 < mint \<and> mint \<le> maxt then (Inr (mint, maxt), w)
                    else (Inl AssertionError, w)))"
  by (auto simp: check_intervals_def raise_p_def bind_p_def of_result_def unit_p_def
      split: sum.splits dest: parse_time_error)

lemma autoinject_check_failed:
  assumes "check_intervals (auto_total_fault_number a) (auto_min_interval a) (auto_max_interval a) w
             = (Inl e, w)"
    and "e = ValueError \<or> e = AssertionError"
  shows "autoinject (Run [] (Inr a)) w = (Inr (), printed w [ErrorMessage e])"
  using assms
  by (auto simp: autoinject_def parse_args_safely_parsed printed_Nil bind_p_def try_p_def seq_p_def
      print_p_def emit_def unit_p_def printed_def)

lemma snapinject_check_failed:
  assumes "check_intervals (snap_total_fault_number s) (snap_min_interval s) (snap_max_interval s) w
             = (Inl e, w)"
    and "e = ValueError \<or> e = AssertionError"
  shows "snapinject (Run [] (Inr s)) w = (Inr (), printed w [ErrorMessage e])"
  using assms
  by (auto simp: snapinject_def parse_args_safely_parsed printed_Nil bind_p_def try_p_def seq_p_def
      print_p_def emit_def unit_p_def printed_def)

lemma snapinject_observe_failed:
  assumes "check_intervals (snap_total_fault_number s) (snap_min_interval s) (snap_max_interval s) w
             = (Inr (mint, maxt), w)"
    and "parse_time (snap_observe_time s) = Inl e"
  shows "snapinject (Run [] (Inr s)) w = (Inr (), printed w [ErrorMessage ValueError])"
  using assms parse_time_error [OF assms(2)]
  by (auto simp: snapinject_def parse_args_safely_parsed printed_Nil bind_p_def try_p_def seq_p_def
      print_p_def emit_def unit_p_def printed_def of_result_def)

lemma inject_reaches_inject_bitflip:
  assumes "inj_address i \<noteq> []" and "gdb_eval w (inj_address i) = Some address"
    and "inj_bytewidth i = Some bw" and "1 \<le> bw" and "0 \<le> address"
  shows "inject (Run [] (Inr i)) w = inject_bitflip address bw (Some (inj_bit i)) w"
  using assms
  by (simp add: inject_def parse_args_safely_parsed printed_Nil bind_p_def try_p_def
      parse_and_eval_def unit_p_def Let_def)

section \<open>Properties of the range file and of \<open>appinject\<close>\<close>

lemma lines_one_range:
  "split (universal_newlines (''0x1000-0x1004'' @ nl)) (CHR 0x0A) = [''0x1000-0x1004'', []]"
  by code_simp

lemma lines_blank_and_text:
  "split (universal_newlines (nl @ ''not a range'' @ nl @ ''0x1000-0x1004'' @ nl)) (CHR 0x0A) =
     [[], ''not a range'', ''0x1000-0x1004'', []]"
  by code_simp

lemma lines_bad_number:
  "split (universal_newlines (''zz-10'' @ nl @ ''0x1000-0x1004'' @ nl)) (CHR 0x0A) =
     [''zz-10'', ''0x1000-0x1004'', []]"
  by code_simp

lemma strip_examples:
  "strip [] = []" "strip ''not a range'' = ''not a range''"
  "strip ''0x1000-0x1004'' = ''0x1000-0x1004''" "strip ''zz-10'' = ''zz-10''"
  by code_simp+

lemma range_of_line_examples:
  "range_of_line ''0x1000-0x1004'' = Inr [0x1000, 0x1001, 0x1002, 0x1003]"
  "range_of_line ''zz-10'' = Inl ValueError"
  by code_simp+

lemma range_file_one_range:
  "range_file_loop [''0x1000-0x1004'', []] [] w = (Inr [0x1000, 0x1001, 0x1002, 0x1003], w)"
  by (simp add: strip_examples range_of_line_examples Let_def bind_p_def try_p_def unit_p_def
      of_result_def)

lemma range_file_blank_and_text:
  "range_file_loop [[], ''not a range'', ''0x1000-0x1004'', []] [] w =
     (Inr [0x1000, 0x1001, 0x1002, 0x1003], w)"
  by (simp add: strip_examples range_of_line_examples Let_def bind_p_def try_p_def unit_p_def
      of_result_def)

lemma range_file_bad_number:
  "range_file_loop [''zz-10'', ''0x1000-0x1004'', []] [] w =
     (Inr [0x1000, 0x1001, 0x1002, 0x1003],
      w\<lparr>trace := trace w @ [Printed (InvalidLineInRangeFile ''zz-10'')]\<rparr>)"
  by (simp add: strip_examples range_of_line_examples Let_def bind_p_def try_p_def unit_p_def
      of_result_def seq_p_def print_p_def emit_def is_Exception_def)

text \<open>
  Claim C8 (the code departs from it). The range file with the one line
  \<open>0x1000-0x1004\<close> does yield the four addresses 0x1000 to 0x1003. But \<open>appinject\<close>
  never reads it: the parser is built by chaining \<open>.add_argument\<close> on the result of
  \<open>add_argument\<close>, which is an \<open>Action\<close>, so every invocation raises AttributeError
  before the arguments are parsed, and the request for 2 injections performs none.
  Besides, a blank line and a line without \<open>-\<close> are skipped without any warning; only
  a line with a \<open>-\<close> that does not convert is reported.
\<close>

theorem appinject_raises_before_parsing:
  "appinject args w = (Inl AttributeError, w) \<and>
   (files w path = Some (''0x1000-0x1004'' @ nl) \<longrightarrow>
      parse_address_ranges_file path w = (Inr [0x1000, 0x1001, 0x1002, 0x1003], w)) \<and>
   (files w path = Some (nl @ ''not a range'' @ nl @ ''0x1000-0x1004'' @ nl) \<longrightarrow>
      parse_address_ranges_file path w = (Inr [0x1000, 0x1001, 0x1002, 0x1003], w)) \<and>
   (files w path = Some (''zz-10'' @ nl @ ''0x1000-0x1004'' @ nl) \<longrightarrow>
      parse_address_ranges_file path w =
        (Inr [0x1000, 0x1001, 0x1002, 0x1003],
         w\<lparr>trace := trace w @ [Printed (InvalidLineInRangeFile ''zz-10'')]\<rparr>))"
proof -
  have a: "appinject args w = (Inl AttributeError, w)"
    by (simp add: appinject_def add_argument_def bind_p_def of_result_def)
  have b: "files w path = Some (''0x1000-0x1004'' @ nl) \<longrightarrow>
      parse_address_ranges_file path w = (Inr [0x1000, 0x1001, 0x1002, 0x1003], w)"
    unfolding parse_address_ranges_file_def open_read_def bind_p_def
    using lines_one_range range_file_one_range by simp
  have c: "files w path = Some (nl @ ''not a range'' @ nl @ ''0x1000-0x1004'' @ nl) \<longrightarrow>
      parse_address_ranges_file path w = (Inr [0x1000, 0x1001, 0x1002, 0x1003], w)"
    unfolding parse_address_ranges_file_def open_read_def bind_p_def
    using lines_blank_and_text range_file_blank_and_text by simp
  have d: "files w path = Some (''zz-10'' @ nl @ ''0x1000-0x1004'' @ nl) \<longrightarrow>
      parse_address_ranges_file path w =
        (Inr [0x1000, 0x1001, 0x1002, 0x1003],
         w\<lparr>trace := trace w @ [Printed (InvalidLineInRangeFile ''zz-10'')]\<rparr>)"
    unfolding parse_address_ranges_file_def open_read_def bind_p_def
    using lines_bad_number range_file_bad_number by simp
  show ?thesis using a b c d by blast
qed

theorem appinject_raises_before_parsing_witness:
  "appinject (Run [] (Inr \<lparr>app_total_fault_number = 2, app_range_file = ''ranges.txt''\<rparr>))
     example_world = (Inl AttributeError, example_world) \<and>
   parse_address_ranges_file ''ranges.txt'' example_world =
     (Inr [0x1000, 0x1001, 0x1002, 0x1003], example_world) \<and>
   fst (parse_address_ranges_file ''f''
          (example_world\<lparr>files := (\<lambda>p. Some (nl @ ''not a range'' @ nl @ ''0x1000-0x1004'' @ nl))\<rparr>))
     = Inr [0x1000, 0x1001, 0x1002, 0x1003] \<and>
   trace (snd (parse_address_ranges_file ''f''
          (example_world\<lparr>files := (\<lambda>p. Some (nl @ ''not a range'' @ nl @ ''0x1000-0x1004'' @ nl))\<rparr>)))
     = [] \<and>
   trace (snd (parse_address_ranges_file ''f''
          (example_world\<lparr>files := (\<lambda>p. Some (''zz-10'' @ nl @ ''0x1000-0x1004'' @ nl))\<rparr>)))
     = [Printed (InvalidLineInRangeFile ''zz-10'')]"
proof -
  have f1: "files example_world ''ranges.txt'' = Some (''0x1000-0x1004'' @ nl)"
    by (simp add: example_world_def)
  have t: "trace example_world = []" by (simp add: example_world_def)
  note a = appinject_raises_before_parsing
    [of "Run [] (Inr \<lparr>app_total_fault_number = 2, app_range_file = ''ranges.txt''\<rparr>)"
      example_world "''ranges.txt''"]
  note b = appinject_raises_before_parsing
    [of SplitError "example_world\<lparr>files := (\<lambda>p. Some (nl @ ''not a range'' @ nl @ ''0x1000-0x1004'' @ nl))\<rparr>" "''f''"]
  note c = appinject_raises_before_parsing
    [of SplitError "example_world\<lparr>files := (\<lambda>p. Some (''zz-10'' @ nl @ ''0x1000-0x1004'' @ nl))\<rparr>" "''f''"]
  show ?thesis using a b c f1 t by simp
qed

section \<open>Properties of the handling of input errors\<close>

lemma strip_usage: "strip usage_text = ''usage: inject''" and usage_text_not_empty: "usage_text \<noteq> []"
  by code_simp+

lemma parse_time_inputs:
  "parse_time ''1ms'' = Inr 1000000" "parse_time ''2ms'' = Inr 2000000"
  "parse_time ''abc'' = Inl ValueError"
  by code_simp+

text \<open>
  Claim C9 (as stated, it fails). A bit index outside the byte width is checked
  nowhere: \<open>inject --address 0x1000 --bytewidth 1 --bit 8\<close> reads the byte, computes
  \<open>ovalue ^ (1 << 8)\<close>, and \<open>int.to_bytes(nvalue, 1, "little")\<close> raises OverflowError. No
  \<open>try\<close> of \<open>inject\<close> or \<open>inject_bitflip\<close> encloses the call, so the exception leaves
  the command handler and nothing is printed.
\<close>

theorem inject_bit_outside_width_counterexample:
  "inject (Run [] (Inr \<lparr>inj_address = ''0x1000'', inj_bytewidth = Some 1, inj_bit = 8\<rparr>))
     example_world = (Inl OverflowError, example_world) \<and>
   trace example_world = []"
proof -
  let ?i = "\<lparr>inj_address = ''0x1000'', inj_bytewidth = Some 1, inj_bit = 8\<rparr>"
  have a: "inject (Run [] (Inr ?i)) example_world =
      inject_bitflip 0x1000 1 (Some (inj_bit ?i)) example_world"
    by (rule inject_reaches_inject_bitflip) (simp_all add: example_world_def)
  have b: "inject_bitflip 0x1000 1 (Some 8) example_world = (Inl OverflowError, example_world)"
    by (rule inject_bitflip_bit_too_large) (simp_all add: example_world_def)
  show ?thesis using a b by (simp add: example_world_def)
qed

text \<open>
  Claim C9, amended. \<open>parse_args_safely\<close> lets no exception of \<open>shlex\<close> or argparse
  out, SystemExit included: it prints what argparse wrote to \<open>stderr\<close> (and a notice
  for an exception other than SystemExit) and returns \<open>None\<close>, and then \<open>inject\<close>,
  \<open>autoinject\<close> and \<open>snapinject\<close> return normally, having done nothing else. In
  \<open>autoinject\<close> and \<open>snapinject\<close> a fault count below one, a minimum interval above
  the maximum and a duration that does not parse are printed as an error, and the
  command returns normally, having sent nothing to the monitor. But a bit index
  outside the byte width is no handled error: for \<open>inject\<close> with an address that
  evaluates, a width \<open>w \<ge> 1\<close> and mapped memory, a bit \<open>\<ge> 8 w\<close> raises OverflowError
  and a negative bit raises ValueError; both leave the handler, with the state
  unchanged and nothing printed.
\<close>

theorem input_errors_printed_except_bit_index:
  "(let w1 = printed w ((if err = [] then [] else [ParserOutput (strip err)]) @
                        (if e = SystemExit then [] else [ErrorParsingArguments]))
    in parse_args_safely (Run err (Inl e) :: inject_args cmdline) w = (Inr None, w1) \<and>
       inject (Run err (Inl e)) w = (Inr (), w1) \<and>
       autoinject (Run err (Inl e)) w = (Inr (), w1) \<and>
       snapinject (Run err (Inl e)) w = (Inr (), w1)) \<and>
   inject SplitError w = (Inr (), printed w [ErrorParsingArguments]) \<and>
   autoinject SplitError w = (Inr (), printed w [ErrorParsingArguments]) \<and>
   snapinject SplitError w = (Inr (), printed w [ErrorParsingArguments]) \<and>
   (auto_total_fault_number a < 1 \<longrightarrow>
      autoinject (Run [] (Inr a)) w = (Inr (), printed w [ErrorMessage AssertionError])) \<and>
   (1 \<le> auto_total_fault_number a \<and> parse_time (auto_min_interval a) = Inr mint \<and>
    parse_time (auto_max_interval a) = Inr maxt \<and> maxt < mint \<longrightarrow>
      autoinject (Run [] (Inr a)) w = (Inr (), printed w [ErrorMessage AssertionError])) \<and>
   (1 \<le> auto_total_fault_number a \<and>
    (isl (parse_time (auto_min_interval a)) \<or> isl (parse_time (auto_max_interval a))) \<longrightarrow>
      autoinject (Run [] (Inr a)) w = (Inr (), printed w [ErrorMessage ValueError])) \<and>
   (snap_total_fault_number s < 1 \<longrightarrow>
      snapinject (Run [] (Inr s)) w = (Inr (), printed w [ErrorMessage AssertionError])) \<and>
   (1 \<le> snap_total_fault_number s \<and> parse_time (snap_min_interval s) = Inr mint \<and>
    parse_time (snap_max_interval s) = Inr maxt \<and> maxt < mint \<longrightarrow>
      snapinject (Run [] (Inr s)) w = (Inr (), printed w [ErrorMessage AssertionError])) \<and>
   (1 \<le> snap_total_fault_number s \<and>
    (isl (parse_time (snap_min_interval s)) \<or> isl (parse_time (snap_max_interval s))) \<longrightarrow>
      snapinject (Run [] (Inr s)) w = (Inr (), printed w [ErrorMessage ValueError])) \<and>
   (1 \<le> snap_total_fault_number s \<and> parse_time (snap_min_interval s) = Inr mint \<and>
    parse_time (snap_max_interval s) = Inr maxt \<and> mint \<le> maxt \<and>
    isl (parse_time (snap_observe_time s)) \<longrightarrow>
      snapinject (Run [] (Inr s)) w = (Inr (), printed w [ErrorMessage ValueError])) \<and>
   (inj_address i \<noteq> [] \<and> gdb_eval w (inj_address i) = None \<longrightarrow>
      inject (Run [] (Inr i)) w = (Inr (), printed w [ErrorParsingAddress])) \<and>
   (inj_address i \<noteq> [] \<and> gdb_eval w (inj_address i) = Some address \<and>
    inj_bytewidth i = Some bw \<and> (bw < 1 \<or> address < 0) \<longrightarrow>
      inject (Run [] (Inr i)) w = (Inr (), printed w [InvalidBytewidthOrAddress])) \<and>
   (inj_address i \<noteq> [] \<and> gdb_eval w (inj_address i) = Some address \<and>
    inj_bytewidth i = Some bw \<and> 1 \<le> bw \<and> 0 \<le> address \<and>
    (\<forall>x. address \<le> x \<and> x < address + bw \<longrightarrow> mapped w x) \<longrightarrow>
      (8 * bw \<le> inj_bit i \<longrightarrow> inject (Run [] (Inr i)) w = (Inl OverflowError, w)) \<and>
      (inj_bit i < 0 \<longrightarrow> inject (Run [] (Inr i)) w = (Inl ValueError, w)))"
proof -
  define w1 where "w1 = printed w ((if err = [] then [] else [ParserOutput (strip err)]) @
                        (if e = SystemExit then [] else [ErrorParsingArguments]))"
  have p1: "parse_args_safely (Run err (Inl e) :: inject_args cmdline) w = (Inr None, w1)"
    and p2: "parse_args_safely (Run err (Inl e) :: autoinject_args cmdline) w = (Inr None, w1)"
    and p3: "parse_args_safely (Run err (Inl e) :: snapinject_args cmdline) w = (Inr None, w1)"
    unfolding w1_def by (rule parse_args_safely_raised)+
  note h = handlers_return_on_None [OF p1 p2 p3]
  have c1: "parse_args_safely (Run err (Inl e) :: inject_args cmdline) w = (Inr None, w1) \<and>
       inject (Run err (Inl e)) w = (Inr (), w1) \<and>
       autoinject (Run err (Inl e)) w = (Inr (), w1) \<and>
       snapinject (Run err (Inl e)) w = (Inr (), w1)"
    using p1 h by simp
  note s = handlers_return_on_None [OF parse_args_safely_split_error
      parse_args_safely_split_error parse_args_safely_split_error, of w]
  have a1: "auto_total_fault_number a < 1 \<longrightarrow>
      autoinject (Run [] (Inr a)) w = (Inr (), printed w [ErrorMessage AssertionError])"
    by (auto intro!: autoinject_check_failed simp: check_intervals_cases)
  have a2: "1 \<le> auto_total_fault_number a \<and> parse_time (auto_min_interval a) = Inr mint \<and>
    parse_time (auto_max_interval a) = Inr maxt \<and> maxt < mint \<longrightarrow>
      autoinject (Run [] (Inr a)) w = (Inr (), printed w [ErrorMessage AssertionError])"
    by (auto intro!: autoinject_check_failed simp: check_intervals_cases)
  have a3: "1 \<le> auto_total_fault_number a \<and>
    (isl (parse_time (auto_min_interval a)) \<or> isl (parse_time (auto_max_interval a))) \<longrightarrow>
      autoinject (Run [] (Inr a)) w = (Inr (), printed w [ErrorMessage ValueError])"
  proof (intro impI, elim conjE)
    assume t: "1 \<le> auto_total_fault_number a"
      and d: "isl (parse_time (auto_min_interval a)) \<or> isl (parse_time (auto_max_interval a))"
    show "autoinject (Run [] (Inr a)) w = (Inr (), printed w [ErrorMessage ValueError])"
    proof (cases "parse_time (auto_min_interval a)")
      case (Inl x)
      with t show ?thesis
        by (auto intro!: autoinject_check_failed simp: check_intervals_cases)
    next
      case (Inr mi)
      with d obtain y where y: "parse_time (auto_max_interval a) = Inl y"
        by (cases "parse_time (auto_max_interval a)") auto
      with t Inr show ?thesis
        by (auto intro!: autoinject_check_failed simp: check_intervals_cases)
    qed
  qed
  have s1: "snap_total_fault_number s < 1 \<longrightarrow>
      snapinject (Run [] (Inr s)) w = (Inr (), printed w [ErrorMessage AssertionError])"
    by (auto intro!: snapinject_check_failed simp: check_intervals_cases)
  have s2: "1 \<le> snap_total_fault_number s \<and> parse_time (snap_min_interval s) = Inr mint \<and>
    parse_time (snap_max_interval s) = Inr maxt \<and> maxt < mint \<longrightarrow>
      snapinject (Run [] (Inr s)) w = (Inr (), printed w [ErrorMessage AssertionError])"
    by (auto intro!: snapinject_check_failed simp: check_intervals_cases)
  have s3: "1 \<le> snap_total_fault_number s \<and>
    (isl (parse_time (snap_min_interval s)) \<or> isl (parse_time (snap_max_interval s))) \<longrightarrow>
      snapinject (Run [] (Inr s)) w = (Inr (), printed w [ErrorMessage ValueError])"
  proof (intro impI, elim conjE)
    assume t: "1 \<le> snap_total_fault_number s"
      and d: "isl (parse_time (snap_min_interval s)) \<or> isl (parse_time (snap_max_interval s))"
    show "snapinject (Run [] (Inr s)) w = (Inr (), printed w [ErrorMessage ValueError])"
    proof (cases "parse_time (snap_min_interval s)")
      case (Inl x)
      with t show ?thesis
        by (auto intro!: snapinject_check_failed simp: check_intervals_cases)
    next
      case (Inr mi)
      with d obtain y where y: "parse_time (snap_max_interval s) = Inl y"
        by (cases "parse_time (snap_max_interval s)") auto
      with t Inr show ?thesis
        by (auto intro!: snapinject_check_failed simp: check_intervals_cases)
    qed
  qed
  have s4: "1 \<le> snap_total_fault_number s \<and> parse_time (snap_min_interval s) = Inr mint \<and>
    parse_time (snap_max_interval s) = Inr maxt \<and> mint \<le> maxt \<and>
    isl (parse_time (snap_observe_time s)) \<longrightarrow>
      snapinject (Run [] (Inr s)) w = (Inr (), printed w [ErrorMessage ValueError])"
  proof (intro impI, elim conjE)
    assume t: "1 \<le> snap_total_fault_number s"
      and mi: "parse_time (snap_min_interval s) = Inr mint"
      and ma: "parse_time (snap_max_interval s) = Inr maxt" and le: "mint \<le> maxt"
      and ob: "isl (parse_time (snap_observe_time s))"
    from ob obtain z where z: "parse_time (snap_observe_time s) = Inl z"
      by (cases "parse_time (snap_observe_time s)") auto
    have pos: "0 < mint" using mi by (rule parse_time_positive)
    have "check_intervals (snap_total_fault_number s) (snap_min_interval s)
        (snap_max_interval s) w = (Inr (mint, maxt), w)"
      using t mi ma le pos by (simp add: check_intervals_cases)
    then show "snapinject (Run [] (Inr s)) w = (Inr (), printed w [ErrorMessage ValueError])"
      using z by (rule snapinject_observe_failed)
  qed
  have i1: "inj_address i \<noteq> [] \<and> gdb_eval w (inj_address i) = None \<longrightarrow>
      inject (Run [] (Inr i)) w = (Inr (), printed w [ErrorParsingAddress])"
    by (simp add: inject_def parse_args_safely_parsed printed_Nil bind_p_def try_p_def
        parse_and_eval_def unit_p_def seq_p_def print_p_def emit_def is_Exception_def printed_def)
  have i2: "inj_address i \<noteq> [] \<and> gdb_eval w (inj_address i) = Some address \<and>
    inj_bytewidth i = Some bw \<and> (bw < 1 \<or> address < 0) \<longrightarrow>
      inject (Run [] (Inr i)) w = (Inr (), printed w [InvalidBytewidthOrAddress])"
    by (auto simp: inject_def parse_args_safely_parsed printed_Nil bind_p_def try_p_def
        parse_and_eval_def unit_p_def seq_p_def print_p_def emit_def printed_def Let_def)
  have b: "inj_address i \<noteq> [] \<and> gdb_eval w (inj_address i) = Some address \<and>
    inj_bytewidth i = Some bw \<and> 1 \<le> bw \<and> 0 \<le> address \<and>
    (\<forall>x. address \<le> x \<and> x < address + bw \<longrightarrow> mapped w x) \<longrightarrow>
      (8 * bw \<le> inj_bit i \<longrightarrow> inject (Run [] (Inr i)) w = (Inl OverflowError, w)) \<and>
      (inj_bit i < 0 \<longrightarrow> inject (Run [] (Inr i)) w = (Inl ValueError, w))"
    by (auto simp: inject_reaches_inject_bitflip inject_bitflip_bit_too_large
        inject_bitflip_bit_negative)
  show ?thesis
    unfolding Let_def w1_def [symmetric]
    using c1 s a1 a2 a3 s1 s2 s3 s4 i1 i2 b by blast
qed

theorem input_errors_printed_except_bit_index_witness:
  "inject (Run usage_text (Inl SystemExit)) example_world =
     (Inr (), printed example_world [ParserOutput ''usage: inject'']) \<and>
   autoinject (Run [] (Inr \<lparr>auto_total_fault_number = 0, auto_min_interval = ''1ms'',
       auto_max_interval = ''2ms'', auto_fault_type = ''ram''\<rparr>)) example_world =
     (Inr (), printed example_world [ErrorMessage AssertionError]) \<and>
   autoinject (Run [] (Inr \<lparr>auto_total_fault_number = 3, auto_min_interval = ''2ms'',
       auto_max_interval = ''1ms'', auto_fault_type = ''ram''\<rparr>)) example_world =
     (Inr (), printed example_world [ErrorMessage AssertionError]) \<and>
   autoinject (Run [] (Inr \<lparr>auto_total_fault_number = 3, auto_min_interval = ''abc'',
       auto_max_interval = ''1ms'', auto_fault_type = ''ram''\<rparr>)) example_world =
     (Inr (), printed example_world [ErrorMessage ValueError]) \<and>
   snapinject (Run [] (Inr \<lparr>snap_total_fault_number = 3, snap_min_interval = ''1ms'',
       snap_max_interval = ''2ms'', snap_fault_type = ''ram'', snap_fault_location = None,
       snap_bit_index = None, snap_observe_time = ''abc'', snap_snapshot_tag = None\<rparr>))
     example_world = (Inr (), printed example_world [ErrorMessage ValueError]) \<and>
   inject (Run [] (Inr \<lparr>inj_address = ''0x1000'', inj_bytewidth = Some 1, inj_bit = 8\<rparr>))
     example_world = (Inl OverflowError, example_world) \<and>
   inject (Run [] (Inr \<lparr>inj_address = ''0x1000'', inj_bytewidth = Some 1, inj_bit = - 1\<rparr>))
     example_world = (Inl ValueError, example_world) \<and>
   inject (Run [] (Inr \<lparr>inj_address = ''zz'', inj_bytewidth = Some 1, inj_bit = 0\<rparr>))
     example_world = (Inr (), printed example_world [ErrorParsingAddress]) \<and>
   inject (Run [] (Inr \<lparr>inj_address = ''0x1000'', inj_bytewidth = Some 0, inj_bit = 0\<rparr>))
     example_world = (Inr (), printed example_world [InvalidBytewidthOrAddress])"
proof -
  let ?a0 = "\<lparr>auto_total_fault_number = 0, auto_min_interval = ''1ms'',
       auto_max_interval = ''2ms'', auto_fault_type = ''ram''\<rparr>"
  let ?a1 = "\<lparr>auto_total_fault_number = 3, auto_min_interval = ''2ms'',
       auto_max_interval = ''1ms'', auto_fault_type = ''ram''\<rparr>"
  let ?a2 = "\<lparr>auto_total_fault_number = 3, auto_min_interval = ''abc'',
       auto_max_interval = ''1ms'', auto_fault_type = ''ram''\<rparr>"
  let ?s = "\<lparr>snap_total_fault_number = 3, snap_min_interval = ''1ms'',
       snap_max_interval = ''2ms'', snap_fault_type = ''ram'', snap_fault_location = None,
       snap_bit_index = None, snap_observe_time = ''abc'', snap_snapshot_tag = None\<rparr>"
  let ?i8 = "\<lparr>inj_address = ''0x1000'', inj_bytewidth = Some 1, inj_bit = 8\<rparr>"
  let ?im = "\<lparr>inj_address = ''0x1000'', inj_bytewidth = Some 1, inj_bit = - 1\<rparr>"
  have g: "gdb_eval example_world ''0x1000'' = Some 0x1000"
    and m: "\<forall>x. 0x1000 \<le> x \<and> x < 0x1000 + 1 \<longrightarrow> mapped example_world x"
    by (simp_all add: example_world_def)
  note t0 = input_errors_printed_except_bit_index
    [where err = usage_text and e = SystemExit and w = example_world and a = ?a0
      and mint = 0 and maxt = 0 and s = ?s and i = ?i8 and address = "0x1000" and bw = 1]
  note t1 = input_errors_printed_except_bit_index
    [where err = "[]" and e = SystemExit and w = example_world and a = ?a1
      and mint = 2000000 and maxt = 1000000 and s = ?s and i = ?im and address = "0x1000"
      and bw = 1]
  note t2 = input_errors_printed_except_bit_index
    [where err = "[]" and e = SystemExit and w = example_world and a = ?a2
      and mint = 1000000 and maxt = 2000000 and s = ?s and i = ?im and address = "0x1000"
      and bw = 1]
  have c1: "inject (Run usage_text (Inl SystemExit)) example_world =
     (Inr (), printed example_world [ParserOutput ''usage: inject''])"
    using t0 by (simp add: Let_def strip_usage usage_text_not_empty)
  have c2: "autoinject (Run [] (Inr ?a0)) example_world =
     (Inr (), printed example_world [ErrorMessage AssertionError])"
    using t0 by simp
  have c3: "autoinject (Run [] (Inr ?a1)) example_world =
     (Inr (), printed example_world [ErrorMessage AssertionError])"
    using t1 by (simp add: parse_time_inputs)
  have c4: "autoinject (Run [] (Inr ?a2)) example_world =
     (Inr (), printed example_world [ErrorMessage ValueError])"
    using t2 by (simp add: parse_time_inputs)
  have c5: "snapinject (Run [] (Inr ?s)) example_world =
     (Inr (), printed example_world [ErrorMessage ValueError])"
    using t2 by (simp add: parse_time_inputs)
  have c6: "inject (Run [] (Inr ?i8)) example_world = (Inl OverflowError, example_world)"
    using t0 g m by simp
  have c7: "inject (Run [] (Inr ?im)) example_world = (Inl ValueError, example_world)"
    using t1 g m by simp
  let ?iz = "\<lparr>inj_address = ''zz'', inj_bytewidth = Some 1, inj_bit = 0\<rparr>"
  let ?i0 = "\<lparr>inj_address = ''0x1000'', inj_bytewidth = Some 0, inj_bit = 0\<rparr>"
  have gz: "gdb_eval example_world ''zz'' = None" by (simp add: example_world_def)
  note t3 = input_errors_printed_except_bit_index
    [where err = "[]" and e = SystemExit and w = example_world and a = ?a2
      and mint = 1000000 and maxt = 2000000 and s = ?s and i = ?iz and address = "0x1000"
      and bw = 1]
  note t4 = input_errors_printed_except_bit_index
    [where err = "[]" and e = SystemExit and w = example_world and a = ?a2
      and mint = 1000000 and maxt = 2000000 and s = ?s and i = ?i0 and address = "0x1000"
      and bw = 0]
  have c8: "inject (Run [] (Inr ?iz)) example_world =
      (Inr (), printed example_world [ErrorParsingAddress])"
    using t3 gz by simp
  have c9: "inject (Run [] (Inr ?i0)) example_world =
      (Inr (), printed example_world [InvalidBytewidthOrAddress])"
    using t4 g by simp
  show ?thesis using c1 c2 c3 c4 c5 c6 c7 c8 c9 by simp
qed

section \<open>Properties of \<open>snapinject\<close>\<close>

lemma extends_unit: "extends (unit_p x)"
  by (simp add: extends_def unit_p_def)

lemma extends_raise: "extends (raise_p e)"
  by (simp add: extends_def raise_p_def)

lemma extends_of_result: "extends (of_result r)"
  by (simp add: extends_def of_result_def)

lemma extends_emit: "extends (emit ev)"
  by (simp add: extends_def emit_def)

lemma extends_print: "extends (print_p m)"
  by (simp add: print_p_def extends_emit)

lemma extends_qemu_hmp: "extends (qemu_hmp c)"
  by (simp add: qemu_hmp_def extends_emit)

lemma extends_bind:
  assumes "extends m" and "\<And>x. extends (f x)"
  shows "extends (bind_p m f)"
proof -
  have "prefix (trace w) (trace (snd (bind_p m f w)))" for w
  proof (cases "m w")
    case (Pair r w1)
    have a: "prefix (trace w) (trace w1)" using assms(1) Pair by (auto simp: extends_def dest: spec [of _ w])
    show ?thesis
    proof (cases r)
      case (Inl e)
      with Pair a show ?thesis by (simp add: bind_p_def)
    next
      case (Inr x)
      have "prefix (trace w1) (trace (snd (f x w1)))" using assms(2) by (simp add: extends_def)
      with a Pair Inr show ?thesis by (auto simp: bind_p_def)
    qed
  qed
  then show ?thesis by (simp add: extends_def)
qed

lemma extends_seq:
  assumes "extends m" and "extends n"
  shows "extends (seq_p m n)"
  unfolding seq_p_def using assms by (intro extends_bind)

lemma extends_try:
  assumes "extends m" and "\<And>e. extends (h e)"
  shows "extends (try_p m hs h)"
proof -
  have "prefix (trace w) (trace (snd (try_p m hs h w)))" for w
  proof (cases "m w")
    case (Pair r w1)
    have a: "prefix (trace w) (trace w1)" using assms(1) Pair by (auto simp: extends_def dest: spec [of _ w])
    show ?thesis
    proof (cases r)
      case (Inr x)
      with Pair a show ?thesis by (simp add: try_p_def)
    next
      case (Inl e)
      have "prefix (trace w1) (trace (snd (h e w1)))" using assms(2) by (simp add: extends_def)
      with a Pair Inl show ?thesis by (auto simp: try_p_def)
    qed
  qed
  then show ?thesis by (simp add: extends_def)
qed

lemma extends_if:
  assumes "c \<Longrightarrow> extends a" and "\<not> c \<Longrightarrow> extends b"
  shows "extends (if c then a else b)"
  using assms by simp

lemma extends_case_option:
  assumes "x = None \<Longrightarrow> extends a" and "\<And>y. x = Some y \<Longrightarrow> extends (b y)"
  shows "extends (case x of None \<Rightarrow> a | Some y \<Rightarrow> b y)"
  using assms by (cases x) simp_all

lemma extends_case_prod3:
  assumes "\<And>a b c. extends (f a b c)"
  shows "extends (case p of (a, b, c) \<Rightarrow> f a b c)"
  using assms by (cases p) simp

lemma extends_randint: "extends (randint_p a b)"
  by (auto simp: extends_def randint_p_def split: sum.splits)

lemma extends_read_memory: "extends (read_memory a n)"
  by (simp add: extends_def read_memory_def)

lemma extends_write_memory: "extends (write_memory a bs)"
  by (simp add: extends_def write_memory_def)

lemma extends_log_single: "extends (log_single t ov nv)"
  by (auto simp: extends_def log_single_def emit_def print_p_def raise_p_def split: option.splits)

lemma extends_read_register: "extends (read_register n)"
  by (auto simp: extends_def read_register_def split: option.splits)

lemma extends_print_cell: "extends (print_cell n i)"
  by (auto simp: extends_def print_cell_def split: option.splits)

lemma extends_set_cell: "extends (set_cell n i v)"
  by (auto simp: extends_def set_cell_def split: option.splits)

lemmas extends_intros =
  extends_unit extends_raise extends_of_result extends_emit extends_print extends_qemu_hmp
  extends_bind extends_seq extends_try extends_if extends_case_option extends_case_prod3
  extends_randint extends_read_memory extends_write_memory extends_log_single
  extends_read_register extends_print_cell extends_set_cell

lemma extends_inject_bitflip: "extends (inject_bitflip a bw b)"
  unfolding inject_bitflip_def Let_def by (intro extends_intros)

lemma extends_flip_cells: "extends (flip_cells n r b)"
  unfolding flip_cells_def Let_def by (intro extends_intros)

lemma extends_inject_register_bitflip: "extends (inject_register_bitflip n b)"
  unfolding inject_register_bitflip_def Let_def
  by (intro extends_intros extends_flip_cells)

lemma extends_step_ns: "extends (step_ns ns)"
  unfolding step_ns_def by (intro extends_intros)

lemma extends_snap_loop: "extends (snap_loop n mint maxt ft loc b)"
proof (induction n)
  case 0
  show ?case by (simp add: extends_unit)
next
  case (Suc n)
  show ?case
    unfolding snap_loop.simps
    by (intro extends_intros extends_step_ns extends_inject_bitflip
        extends_inject_register_bitflip Suc)
qed


lemma extends_prefix:
  assumes "extends m"
  shows "prefix (trace w) (trace (snd (m w)))"
  using assms by (simp add: extends_def)

lemma bind_p_Inr: "m w = (Inr x, w1) \<Longrightarrow> bind_p m f w = f x w1"
  by (simp add: bind_p_def)

lemma seq_p_Inr: "m w = (Inr (), w1) \<Longrightarrow> seq_p m n w = n w1"
  by (simp add: seq_p_def bind_p_def)

lemma bind_p_assoc: "bind_p (bind_p m f) g = bind_p m (\<lambda>x. bind_p (f x) g)"
  by (auto simp: bind_p_def fun_eq_iff split: prod.splits sum.splits)

lemma bind_seq_assoc: "bind_p (seq_p m n) g = seq_p m (bind_p n g)"
  by (simp add: seq_p_def bind_p_assoc)

lemma snapinject_after_checks:
  assumes one: "(snap_fault_location s = None) \<noteq> (snap_bit_index s = None)"
    and t: "1 \<le> snap_total_fault_number s"
    and mi: "parse_time (snap_min_interval s) = Inr mint"
    and ma: "parse_time (snap_max_interval s) = Inr maxt" and le: "mint \<le> maxt"
    and ob: "parse_time (snap_observe_time s) = Inr obtime"
  shows "\<exists>rest.
           extends rest \<and>
           snapinject (Run [] (Inr s)) w =
             rest (w\<lparr>draws := Suc (draws w),
                     trace := trace w @
                       (case snap_snapshot_tag s of
                          None \<Rightarrow> [Monitor (Savevm (uuid w)), Printed (CreateTmpCheckpoint (uuid w))]
                        | Some t \<Rightarrow>
                            if t = [] then [Monitor (Savevm (uuid w)),
                                            Printed (CreateTmpCheckpoint (uuid w))]
                            else [Monitor (Loadvm t), Printed (LoadCheckpoint t)]) @
                       [Monitor Cont,
                        Monitor (StopDelayed (mint + entropy w (draws w) mod (maxt - mint + 1)))]\<rparr>)"
proof -
  obtain n where n: "nat (snap_total_fault_number s) = Suc n"
    using t by (cases "nat (snap_total_fault_number s)") auto
  have pos: "0 < mint" using mi by (rule parse_time_positive)
  have chk: "check_intervals (snap_total_fault_number s) (snap_min_interval s)
      (snap_max_interval s) w = (Inr (mint, maxt), w)"
    using t mi ma le pos by (simp add: check_intervals_cases)
  define tmpname where "tmpname = Uuid (uuid w)"
  define snapname where "snapname =
      (case snap_snapshot_tag s of None \<Rightarrow> tmpname | Some t \<Rightarrow> if t \<noteq> [] then Tag t else tmpname)"
  define cp where "cp =
      (if snapname = tmpname then
         seq_p (qemu_hmp (Savevm (name_text snapname)))
           (print_p (CreateTmpCheckpoint (name_text snapname)))
       else
         seq_p (qemu_hmp (Loadvm (name_text snapname)))
           (print_p (LoadCheckpoint (name_text snapname))))"
  define inj where "inj =
       (if snap_fault_type s = ''ram'' then
          try_p
            (bind_p (of_result (int16 (snap_fault_location s))) (\<lambda>address.
               seq_p (inject_bitflip address 1 (snap_bit_index s)) (unit_p False)))
            (\<lambda>e. e = ValueError)
            (\<lambda>e. seq_p (print_p ErrorParsingRamAddress) (unit_p True))
        else if snap_fault_type s = ''reg'' then
          bind_p (inject_register_bitflip (snap_fault_location s) (snap_bit_index s))
            (\<lambda>r. unit_p False)
        else unit_p False)"
  define tail where "tail = (\<lambda>returned.
                            if returned then unit_p ()
                            else
                              seq_p (print_p TotalInjectionDuration) (
                              seq_p (print_p (ObservingVM (snap_observe_time s))) (
                              seq_p (step_ns obtime) (
                              seq_p (print_p TimeUp) (
                              seq_p
                                (if snapname = tmpname then
                                   seq_p (qemu_hmp (Loadvm (name_text snapname))) (
                                   seq_p (print_p (BackToCheckpoint (name_text snapname))) (
                                   seq_p (qemu_hmp (Delvm (name_text tmpname)))
                                     (print_p DeleteTmpCheckpoint)))
                                 else unit_p ())
                                (raise_p NameError))))))"
  define k where "k = (\<lambda>returned.
                if returned then unit_p True
                else snap_loop n mint maxt (snap_fault_type s) (snap_fault_location s)
                       (snap_bit_index s))"
  define rest where "rest = bind_p (bind_p inj k) tail"
  have e1: "extends inj"
    unfolding inj_def
    by (intro extends_intros extends_inject_bitflip extends_inject_register_bitflip)
  have e2: "extends (tail r)" for r
    unfolding tail_def by (intro extends_intros extends_step_ns)
  have e3: "extends (k r)" for r
    unfolding k_def by (intro extends_intros extends_snap_loop)
  have e: "extends rest"
    unfolding rest_def by (intro extends_intros e1 e2 e3)
  have nb: "\<not> (snap_fault_location s = None \<and> snap_bit_index s = None)"
    and nr: "\<not> ((snap_fault_location s = None \<and> snap_bit_index s \<noteq> None) \<and>
                (snap_fault_location s \<noteq> None \<and> snap_bit_index s = None))"
    using one by auto
  have s1: "parse_args_safely (Run [] (Inr s)) w = (Inr (Some s), w)"
    by (simp add: parse_args_safely_parsed printed_Nil)
  have s2: "try_p
              (bind_p (check_intervals (snap_total_fault_number s) (snap_min_interval s)
                         (snap_max_interval s))
                 (\<lambda>(mint, maxt).
               bind_p (of_result (parse_time (snap_observe_time s))) (\<lambda>obtime.
                 unit_p (Some (mint, maxt, obtime)))))
              (\<lambda>e. e = ValueError \<or> e = AssertionError)
              (\<lambda>e. seq_p (print_p (ErrorMessage e)) (unit_p None)) w
            = (Inr (Some (mint, maxt, obtime)), w)"
    using chk ob by (simp add: try_p_def bind_p_def of_result_def unit_p_def)
  have s3: "uuid4 w = (Inr tmpname, w)" by (simp add: uuid4_def tmpname_def)
  have b1: "bind_p (parse_args_safely (Run [] (Inr s))) f w = f (Some s) w" for f :: "snapinject_args option \<Rightarrow> unit prog"
    using s1 by (simp add: bind_p_def)
  have b2: "bind_p (try_p
              (bind_p (check_intervals (snap_total_fault_number s) (snap_min_interval s)
                         (snap_max_interval s))
                 (\<lambda>(mint, maxt).
               bind_p (of_result (parse_time (snap_observe_time s))) (\<lambda>obtime.
                 unit_p (Some (mint, maxt, obtime)))))
              (\<lambda>e. e = ValueError \<or> e = AssertionError)
              (\<lambda>e. seq_p (print_p (ErrorMessage e)) (unit_p None))) f w
            = f (Some (mint, maxt, obtime)) w" for f :: "(int \<times> int \<times> int) option \<Rightarrow> unit prog"
    using s2 by (simp add: bind_p_def)
  have b3: "bind_p uuid4 f w = f tmpname w" for f :: "snapshot_name \<Rightarrow> unit prog"
    using s3 by (simp add: bind_p_def)
  have loop: "snap_loop (Suc n) mint maxt (snap_fault_type s) (snap_fault_location s)
      (snap_bit_index s) =
      bind_p (randint_p mint maxt) (\<lambda>ns. seq_p (step_ns ns) (bind_p inj k))"
    by (simp add: inj_def k_def)
  have a: "snapinject (Run [] (Inr s)) w =
      seq_p cp (bind_p (snap_loop (Suc n) mint maxt (snap_fault_type s) (snap_fault_location s)
                  (snap_bit_index s)) tail) w"
    unfolding snapinject_def b1 option.case b2 prod.case b3 Let_def
    using nb nr n
    by (simp only: if_False cp_def tail_def snapname_def tmpname_def)
  define w1 where "w1 = w\<lparr>trace := trace w @
                       (case snap_snapshot_tag s of
                          None \<Rightarrow> [Monitor (Savevm (uuid w)), Printed (CreateTmpCheckpoint (uuid w))]
                        | Some t \<Rightarrow>
                            if t = [] then [Monitor (Savevm (uuid w)),
                                            Printed (CreateTmpCheckpoint (uuid w))]
                            else [Monitor (Loadvm t), Printed (LoadCheckpoint t)])\<rparr>"
  have b: "cp w = (Inr (), w1)"
    unfolding cp_def snapname_def tmpname_def w1_def
    by (auto simp: seq_p_def bind_p_def qemu_hmp_def print_p_def emit_def name_text_def
        split: option.splits)
  define ns where "ns = mint + entropy w (draws w) mod (maxt - mint + 1)"
  have c: "randint_p mint maxt w1 = (Inr ns, w1\<lparr>draws := Suc (draws w)\<rparr>)"
    using le by (simp add: randint_p_def randint_def w1_def ns_def)
  define w2 where "w2 = w1\<lparr>draws := Suc (draws w),
      trace := trace w1 @ [Monitor Cont, Monitor (StopDelayed ns)]\<rparr>"
  have d: "step_ns ns (w1\<lparr>draws := Suc (draws w)\<rparr>) = (Inr (), w2)"
    by (simp add: step_ns_def seq_p_def bind_p_def qemu_hmp_def emit_def w2_def)
  have "snapinject (Run [] (Inr s)) w =
      bind_p (snap_loop (Suc n) mint maxt (snap_fault_type s) (snap_fault_location s)
                  (snap_bit_index s)) tail w1"
    using a b by (simp add: seq_p_Inr)
  also have "\<dots> = bind_p (seq_p (step_ns ns) (bind_p inj k)) tail (w1\<lparr>draws := Suc (draws w)\<rparr>)"
    unfolding loop bind_p_assoc using c by (simp add: bind_p_Inr)
  also have "\<dots> = rest w2"
    unfolding bind_seq_assoc rest_def using d by (simp add: seq_p_Inr)
  finally have run: "snapinject (Run [] (Inr s)) w = rest w2" .
  have "w2 = w\<lparr>draws := Suc (draws w),
                     trace := trace w @
                       (case snap_snapshot_tag s of
                          None \<Rightarrow> [Monitor (Savevm (uuid w)), Printed (CreateTmpCheckpoint (uuid w))]
                        | Some t \<Rightarrow>
                            if t = [] then [Monitor (Savevm (uuid w)),
                                            Printed (CreateTmpCheckpoint (uuid w))]
                            else [Monitor (Loadvm t), Printed (LoadCheckpoint t)]) @
                       [Monitor Cont,
                        Monitor (StopDelayed (mint + entropy w (draws w) mod (maxt - mint + 1)))]\<rparr>"
    by (simp add: w2_def w1_def ns_def)
  with e run show ?thesis by blast
qed

text \<open>
  Claim C4 (the code departs from it). The test of the pair is
  \<open>(location is None and bit_index is not None) and (location is not None and bit_index is None)\<close>,
  a conjunction that nothing satisfies, so the branch that prints the error and
  returns is dead. When exactly one of \<open>--fault-location\<close> and \<open>--bit-index\<close> is given
  and the other arguments pass their checks, the command is not rejected: the first
  things it does are to create the temporary snapshot (or to load the snapshot of
  \<open>--snapshot-tag\<close>) and to resume the machine for the first injection; whatever
  follows only adds to the trace.
\<close>

theorem snapinject_half_pair_not_rejected:
  assumes "(snap_fault_location s = None) \<noteq> (snap_bit_index s = None)"
    and "1 \<le> snap_total_fault_number s"
    and "parse_time (snap_min_interval s) = Inr mint"
    and "parse_time (snap_max_interval s) = Inr maxt" and "mint \<le> maxt"
    and "parse_time (snap_observe_time s) = Inr obtime"
  shows "let tmp = [Monitor (Savevm (uuid w)), Printed (CreateTmpCheckpoint (uuid w))];
             checkpoint =
               (case snap_snapshot_tag s of
                  None \<Rightarrow> tmp
                | Some t \<Rightarrow> if t = [] then tmp else [Monitor (Loadvm t), Printed (LoadCheckpoint t)]);
             ns = mint + entropy w (draws w) mod (maxt - mint + 1)
         in prefix (trace w @ checkpoint @ [Monitor Cont, Monitor (StopDelayed ns)])
              (trace (snd (snapinject (Run [] (Inr s)) w)))"
proof -
  define w2 where "w2 = w\<lparr>draws := Suc (draws w),
                     trace := trace w @
                       (case snap_snapshot_tag s of
                          None \<Rightarrow> [Monitor (Savevm (uuid w)), Printed (CreateTmpCheckpoint (uuid w))]
                        | Some t \<Rightarrow>
                            if t = [] then [Monitor (Savevm (uuid w)),
                                            Printed (CreateTmpCheckpoint (uuid w))]
                            else [Monitor (Loadvm t), Printed (LoadCheckpoint t)]) @
                       [Monitor Cont,
                        Monitor (StopDelayed (mint + entropy w (draws w) mod (maxt - mint + 1)))]\<rparr>"
  from snapinject_after_checks [OF assms, of w] obtain rest where
    e: "extends rest" and r: "snapinject (Run [] (Inr s)) w = rest w2"
    unfolding w2_def by blast
  have "prefix (trace w2) (trace (snd (rest w2)))" using e by (rule extends_prefix)
  then show ?thesis by (simp add: Let_def r w2_def)
qed

theorem snapinject_half_pair_not_rejected_witness:
  "prefix [Monitor (Savevm ''c0ffee''), Printed (CreateTmpCheckpoint ''c0ffee''), Monitor Cont,
           Monitor (StopDelayed 1000000)]
     (trace (snd (snapinject (Run [] (Inr snap_loc_only)) example_world))) \<and>
   trace (snd (snapinject (Run [] (Inr snap_loc_only)) example_world)) =
     [Monitor (Savevm ''c0ffee''), Printed (CreateTmpCheckpoint ''c0ffee''), Monitor Cont,
      Monitor (StopDelayed 1000000), Printed (InjectedBitflip (Address 4096) 239 231),
      Printed TotalInjectionDuration, Printed (ObservingVM ''1ms''), Monitor Cont,
      Monitor (StopDelayed 1000000), Printed TimeUp, Monitor (Loadvm ''c0ffee''),
      Printed (BackToCheckpoint ''c0ffee''), Monitor (Delvm ''c0ffee''),
      Printed DeleteTmpCheckpoint] \<and>
   fst (snapinject (Run [] (Inr snap_bit_only)) example_world) = Inl TypeError \<and>
   trace (snd (snapinject (Run [] (Inr snap_bit_only)) example_world)) =
     [Monitor (Savevm ''c0ffee''), Printed (CreateTmpCheckpoint ''c0ffee''), Monitor Cont,
      Monitor (StopDelayed 1000000)]"
proof -
  have h1: "(snap_fault_location snap_loc_only = None) \<noteq> (snap_bit_index snap_loc_only = None)"
    by (simp add: snap_loc_only_def)
  have h2: "1 \<le> snap_total_fault_number snap_loc_only" by (simp add: snap_loc_only_def)
  have h3: "parse_time (snap_min_interval snap_loc_only) = Inr 1000000"
    and h4: "parse_time (snap_max_interval snap_loc_only) = Inr 1000000"
    and h6: "parse_time (snap_observe_time snap_loc_only) = Inr 1000000"
    by (simp_all add: snap_loc_only_def parse_time_inputs)
  have h5: "(1000000::int) \<le> 1000000" by simp
  have tag: "snap_snapshot_tag snap_loc_only = None" by (simp add: snap_loc_only_def)
  have w: "trace example_world = []" "uuid example_world = ''c0ffee''"
    by (simp_all add: example_world_def)
  from snapinject_half_pair_not_rejected [OF h1 h2 h3 h4 h5 h6, of example_world]
  have a: "prefix [Monitor (Savevm ''c0ffee''), Printed (CreateTmpCheckpoint ''c0ffee''),
                   Monitor Cont, Monitor (StopDelayed 1000000)]
     (trace (snd (snapinject (Run [] (Inr snap_loc_only)) example_world)))"
    by (simp add: Let_def tag w)
  have b: "trace (snd (snapinject (Run [] (Inr snap_loc_only)) example_world)) =
     [Monitor (Savevm ''c0ffee''), Printed (CreateTmpCheckpoint ''c0ffee''), Monitor Cont,
      Monitor (StopDelayed 1000000), Printed (InjectedBitflip (Address 4096) 239 231),
      Printed TotalInjectionDuration, Printed (ObservingVM ''1ms''), Monitor Cont,
      Monitor (StopDelayed 1000000), Printed TimeUp, Monitor (Loadvm ''c0ffee''),
      Printed (BackToCheckpoint ''c0ffee''), Monitor (Delvm ''c0ffee''),
      Printed DeleteTmpCheckpoint]"
    by code_simp
  have c: "fst (snapinject (Run [] (Inr snap_bit_only)) example_world) = Inl TypeError \<and>
     trace (snd (snapinject (Run [] (Inr snap_bit_only)) example_world)) =
       [Monitor (Savevm ''c0ffee''), Printed (CreateTmpCheckpoint ''c0ffee''), Monitor Cont,
        Monitor (StopDelayed 1000000)]"
    by code_simp
  show ?thesis using a b c by simp
qed


end
